theory Spec2Isabelle
  imports Complex_Main "HOL-Library.Word"
begin

section \<open>Common data: errors, bytes, samples\<close>

text \<open>
  The streams of \<^verbatim>\<open>voiceapi/speaker_id.py\<close> and \<^verbatim>\<open>voiceapi/tts.py\<close> are modelled
  with explicit state passing. A Python exception is the value \<open>Inl e\<close>; the object then
  stays as it was before the call. Sample rates are natural numbers. Durations, times,
  confidences and samples, which are floats in Python, are exact rationals here. Where a
  float decides how many samples there are, the float operation is a parameter instead
  (see \<open>float_mul\<close> below). The quotients \<^verbatim>\<open>len(x) * r2 / r1\<close> and
  \<^verbatim>\<open>len(buffer) / rate\<close> divide integers far below \<open>2 ^ 53\<close>, where truncating or
  comparing the float quotient agrees with the exact quotient.
\<close>

datatype py_error = ValueError | ZeroDivisionError | KeyError | AttributeError | WebSocketDisconnect

type_synonym byte = "8 word"
type_synonym sample = rat

text \<open>
  \<^verbatim>\<open>np.frombuffer(pcm_bytes, dtype=np.int16)\<close>: little-endian signed 16-bit integers;
  numpy raises ValueError when the buffer size is not a multiple of the element size.
\<close>

fun int16_pairs :: "byte list \<Rightarrow> int list" where
  "int16_pairs (lo # hi # rest) =
     sint (or (push_bit 8 (ucast hi)) (ucast lo) :: 16 word) # int16_pairs rest"
| "int16_pairs _ = []"

definition frombuffer_int16 :: "byte list \<Rightarrow> py_error + int list" where
  "frombuffer_int16 pcm_bytes =
     (if length pcm_bytes mod 2 \<noteq> 0 then Inl ValueError else Inr (int16_pairs pcm_bytes))"

section \<open>The speaker stream (voiceapi/speaker_id.py)\<close>

record speaker_result =
  speaker_id :: string
  confidence :: rat
  embeddings :: "rat list"

definition SpeakerResult :: "string \<Rightarrow> rat \<Rightarrow> rat list \<Rightarrow> speaker_result" where
  "SpeakerResult sp c e = \<lparr>speaker_id = sp, confidence = c, embeddings = e\<rparr>"

text \<open>
  The sherpa-onnx extractor and manager are external. The extractor is modelled by what
  it answers for a stream that accepted one waveform (sample rate and samples); the
  manager by its search, which returns the empty string when no enrolled speaker
  reaches the threshold.
\<close>

record speaker_extractor =
  is_ready :: "nat \<Rightarrow> sample list \<Rightarrow> bool"
  compute :: "nat \<Rightarrow> sample list \<Rightarrow> rat list"

record speaker_manager =
  search :: "rat list \<Rightarrow> rat \<Rightarrow> string"

text \<open>
  The fields of \<^verbatim>\<open>SpeakerStream\<close>, and one more that the class does not have:
  \<open>run_pending\<close> is the place where the task of \<^verbatim>\<open>run\<close> is suspended. It is set
  when the task has passed the test of its \<^verbatim>\<open>while\<close> and waits in
  \<^verbatim>\<open>inbuf.get()\<close>; it is clear when the task is at the test (before its first step
  and after each chunk).
\<close>

record speaker_stream =
  extractor :: speaker_extractor
  manager :: speaker_manager
  spk_sample_rate :: nat
  spk_inbuf :: "sample list list"
  spk_outbuf :: "speaker_result option list"
  spk_is_closed :: bool
  audio_buffer :: "sample list"
  min_duration :: rat
  identification_threshold :: rat
  run_pending :: bool

definition SpeakerStream ::
  "speaker_extractor \<Rightarrow> speaker_manager \<Rightarrow> nat \<Rightarrow> rat \<Rightarrow> speaker_stream" where
  "SpeakerStream ex mg rate threshold =
     \<lparr>extractor = ex, manager = mg, spk_sample_rate = rate, spk_inbuf = [],
      spk_outbuf = [], spk_is_closed = False, audio_buffer = [], min_duration = 3,
      identification_threshold = threshold, run_pending = False\<rparr>"

text \<open>One pass through the body of the loop of \<^verbatim>\<open>SpeakerStream.run\<close>, for the chunk
  that \<^verbatim>\<open>inbuf.get()\<close> returned.\<close>

definition run_iteration :: "speaker_stream \<Rightarrow> sample list \<Rightarrow> py_error + speaker_stream" where
  "run_iteration s samples =
     (let buf = audio_buffer s @ samples;
          s1 = s\<lparr>audio_buffer := buf\<rparr>
      in if spk_sample_rate s = 0 then Inl ZeroDivisionError
         else
           let duration = (of_nat (length buf) :: rat) / of_nat (spk_sample_rate s)
           in if duration \<ge> min_duration s then
                if is_ready (extractor s) (spk_sample_rate s) buf then
                  let emb = compute (extractor s) (spk_sample_rate s) buf;
                      result = search (manager s) emb (identification_threshold s);
                      verdict =
                        (if result \<noteq> [] then
                           SpeakerResult result (identification_threshold s + 1 / 20) emb
                         else SpeakerResult ''unknown'' 0 emb)
                  in Inr (s1\<lparr>spk_outbuf := spk_outbuf s @ [Some verdict], audio_buffer := []\<rparr>)
                else Inr s1
              else Inr s1)"

text \<open>
  The loop itself, run as far as the input queue allows. The flag \<^verbatim>\<open>is_closed\<close> is
  tested at the head of the loop only: a task that waits in \<^verbatim>\<open>inbuf.get()\<close> takes
  and processes the next chunk even when the stream has been closed meanwhile, and ends
  at the test that follows. On an empty queue the task is suspended in
  \<^verbatim>\<open>inbuf.get()\<close> (here: the function returns, with \<open>run_pending\<close> set).
\<close>

function run :: "speaker_stream \<Rightarrow> py_error + speaker_stream" where
  "run s =
     (if \<not> run_pending s \<and> spk_is_closed s then Inr s
      else case spk_inbuf s of
             [] \<Rightarrow> Inr (s\<lparr>run_pending := True\<rparr>)
           | samples # rest \<Rightarrow>
               (case run_iteration (s\<lparr>spk_inbuf := rest, run_pending := False\<rparr>) samples of
                  Inl e \<Rightarrow> Inl e
                | Inr s' \<Rightarrow> run s'))"
  by pat_completeness auto
termination
  by (relation "measure (\<lambda>s. length (spk_inbuf s))")
     (auto simp: run_iteration_def Let_def split: if_splits)

declare run.simps [simp del]

definition spk_close :: "speaker_stream \<Rightarrow> speaker_stream" where
  "spk_close s = s\<lparr>spk_is_closed := True, spk_outbuf := spk_outbuf s @ [None]\<rparr>"

definition spk_write :: "speaker_stream \<Rightarrow> byte list \<Rightarrow> py_error + speaker_stream" where
  "spk_write s pcm_bytes =
     (case frombuffer_int16 pcm_bytes of
        Inl e \<Rightarrow> Inl e
      | Inr pcm_data \<Rightarrow>
          let samples = map (\<lambda>v. (of_int v :: rat) / 32768) pcm_data
          in Inr (s\<lparr>spk_inbuf := spk_inbuf s @ [samples]\<rparr>))"

text \<open>\<^verbatim>\<open>read\<close> takes the head of the output queue; on an empty queue it waits (None).\<close>

definition spk_read :: "speaker_stream \<Rightarrow> (speaker_result option \<times> speaker_stream) option" where
  "spk_read s =
     (case spk_outbuf s of
        [] \<Rightarrow> None
      | r # rest \<Rightarrow> Some (r, s\<lparr>spk_outbuf := rest\<rparr>))"

section \<open>The TTS stream (voiceapi/tts.py)\<close>

text \<open>
  A Python \<^verbatim>\<open>str\<close> is a sequence of Unicode code points, several of the delimiters
  lie outside Latin-1, so a text is a list of code points (type \<open>unicode\<close>).
\<close>

type_synonym unicode = "nat list"

definition str :: "string \<Rightarrow> unicode" where
  "str cs = map of_char cs"

text \<open>The character class of \<^verbatim>\<open>splitter\<close>: comma, fullwidth comma, ideographic full
  stop, full stop, exclamation and question marks and their fullwidth forms, semicolon,
  fullwidth semicolon, ideographic comma, newline.\<close>

definition splitter :: "nat \<Rightarrow> bool" where
  "splitter c \<longleftrightarrow>
     c \<in> set [44, 65292, 12290, 46, 33, 63, 65281, 65311, 59, 65307, 12289, 10]"

text \<open>\<^verbatim>\<open>re.split\<close> with a one-character pattern: the pieces between the delimiters,
  empty pieces included.\<close>

fun re_split :: "(nat \<Rightarrow> bool) \<Rightarrow> unicode \<Rightarrow> unicode list" where
  "re_split d [] = [[]]"
| "re_split d (c # cs) =
     (if d c then [] # re_split d cs
      else (case re_split d cs of
              [] \<Rightarrow> [[c]]
            | w # ws \<Rightarrow> (c # w) # ws))"

definition isspace :: "nat \<Rightarrow> bool" where
  "isspace c \<longleftrightarrow>
     (9 \<le> c \<and> c \<le> 13) \<or> (28 \<le> c \<and> c \<le> 32) \<or> c = 133 \<or> c = 160 \<or> c = 5760 \<or>
     (8192 \<le> c \<and> c \<le> 8202) \<or> c = 8232 \<or> c = 8233 \<or> c = 8239 \<or> c = 8287 \<or> c = 12288"

definition strip :: "unicode \<Rightarrow> unicode" where
  "strip t = rev (dropWhile isspace (rev (dropWhile isspace t)))"

text \<open>Python's \<^verbatim>\<open>int(x)\<close> on a float, and numpy's \<^verbatim>\<open>astype\<close> to an integer
  type: truncation toward zero.\<close>

definition py_int :: "rat \<Rightarrow> int" where
  "py_int x = (if x \<ge> 0 then \<lfloor>x\<rfloor> else \<lceil>x\<rceil>)"

record tts_result =
  pcm_bytes :: "byte list option"
  finished :: bool
  progress :: rat
  elapsed :: rat
  audio_duration :: rat
  audio_size :: nat

definition TTSResult :: "byte list option \<Rightarrow> bool \<Rightarrow> tts_result" where
  "TTSResult pcm fin =
     \<lparr>pcm_bytes = pcm, finished = fin, progress = 0, elapsed = 0, audio_duration = 0,
      audio_size = 0\<rparr>"

text \<open>
  The sherpa-onnx engine is external. A call of \<^verbatim>\<open>engine.generate\<close> is modelled by
  the frames (chunk and progress) it offers to the callback, in order, and by the audio it
  returns; it stops offering frames once the callback has returned 0.
  \<^verbatim>\<open>scipy.signal.resample\<close> is external too and is a parameter \<open>rs\<close> of the
  operations that call it: \<open>rs x num\<close> stands for \<^verbatim>\<open>resample(x, num)\<close>, which returns
  \<open>num\<close> samples, or raises (as it does for an empty \<open>x\<close> and for \<open>num = 0\<close>); the
  error then leaves the operation that called it.
  The product \<^verbatim>\<open>audio.sample_rate * pause\<close> is a product of doubles, and its
  truncation is the number of samples of a gap. Double arithmetic is not modelled: the
  product is a parameter \<open>fm\<close> of \<^verbatim>\<open>write\<close>, where \<open>fm x y\<close> stands for the exact
  value of the double that the product of \<open>x\<close> and \<open>y\<close> gives, and \<open>pause\<close> is the
  exact value of the double passed (both finite: \<^verbatim>\<open>int\<close> raises on an infinity and on
  a NaN, which is not modelled).
\<close>

record generated_audio =
  samples :: "sample list"
  sample_rate :: nat

type_synonym frame = "sample list \<times> rat"
type_synonym tts_engine = "unicode \<Rightarrow> int \<Rightarrow> rat \<Rightarrow> frame list \<times> generated_audio option"
type_synonym resampler = "sample list \<Rightarrow> nat \<Rightarrow> py_error + sample list"
type_synonym float_mul = "rat \<Rightarrow> rat \<Rightarrow> rat"

record tts_stream =
  engine :: tts_engine
  sid :: int
  speed :: rat
  tts_outbuf :: "tts_result option list"
  tts_is_closed :: bool
  target_sample_rate :: nat
  original_sample_rate :: nat

definition TTSStream :: "tts_engine \<Rightarrow> int \<Rightarrow> rat \<Rightarrow> nat \<Rightarrow> nat \<Rightarrow> tts_stream" where
  "TTSStream eng sp_id spd rate original_rate =
     \<lparr>engine = eng, sid = sp_id, speed = spd, tts_outbuf = [], tts_is_closed = False,
      target_sample_rate = rate, original_sample_rate = original_rate\<rparr>"

text \<open>Scaling by 32768, clipping to the int16 range, truncation, and the two
  little-endian bytes of each sample.\<close>

definition to_int16 :: "sample \<Rightarrow> int" where
  "to_int16 x = py_int (max (- 32768) (min 32767 (x * 32768)))"

definition tobytes :: "int list \<Rightarrow> byte list" where
  "tobytes vs =
     concat (map (\<lambda>v. let w = (word_of_int v :: 16 word) in [ucast w, ucast (drop_bit 8 w)]) vs)"

text \<open>\<^verbatim>\<open>on_process\<close>, the callback of the engine. Its last line,
  \<^verbatim>\<open>self.is_closed and 0 or 1\<close>, is 1 whatever the flag is, since 0 is falsy.\<close>

definition on_process ::
  "resampler \<Rightarrow> tts_stream \<Rightarrow> sample list \<Rightarrow> rat \<Rightarrow> py_error + (tts_stream \<times> int)" where
  "on_process rs s chunk prog =
     (if tts_is_closed s then Inr (s, 0)
      else
        case (if target_sample_rate s \<noteq> original_sample_rate s then
                if original_sample_rate s = 0 then Inl ZeroDivisionError
                else
                  let num_samples = length chunk * target_sample_rate s div original_sample_rate s
                  in rs chunk num_samples
              else Inr chunk) of
          Inl e \<Rightarrow> Inl e
        | Inr chunk' \<Rightarrow>
            let samples = tobytes (map to_int16 chunk');
                s' = s\<lparr>tts_outbuf := tts_outbuf s @ [Some (TTSResult (Some samples) False)]\<rparr>
            in Inr (s', if tts_is_closed s' then (if (0::int) \<noteq> 0 then 0 else 1) else 1))"

definition tts_close :: "tts_stream \<Rightarrow> tts_stream" where
  "tts_close s = s\<lparr>tts_is_closed := True, tts_outbuf := tts_outbuf s @ [None]\<rparr>"

definition tts_read :: "tts_stream \<Rightarrow> (tts_result option \<times> tts_stream) option" where
  "tts_read s =
     (case tts_outbuf s of
        [] \<Rightarrow> None
      | r # rest \<Rightarrow> Some (r, s\<lparr>tts_outbuf := rest\<rparr>))"

text \<open>The engine handing its frames to the callback until the callback returns 0.\<close>

fun run_callback :: "resampler \<Rightarrow> tts_stream \<Rightarrow> frame list \<Rightarrow> py_error + tts_stream" where
  "run_callback rs s [] = Inr s"
| "run_callback rs s ((chunk, prog) # fs) =
     (case on_process rs s chunk prog of
        Inl e \<Rightarrow> Inl e
      | Inr (s', r) \<Rightarrow> if r = 0 then Inr s' else run_callback rs s' fs)"

text \<open>
  \<^verbatim>\<open>await asyncio.to_thread(self.engine.generate, text, sid_int, self.speed, self.on_process)\<close>.
  The call runs on a worker while the event loop goes on, so \<^verbatim>\<open>close()\<close> may run
  while it is in flight: \<open>Some k\<close> says that \<^verbatim>\<open>close()\<close> runs after the engine has
  offered \<open>k\<close> frames, \<open>None\<close> that it does not run during the call.
\<close>

definition engine_generate ::
  "resampler \<Rightarrow> nat option \<Rightarrow> tts_stream \<Rightarrow> unicode \<Rightarrow>
     py_error + (tts_stream \<times> generated_audio option)" where
  "engine_generate rs closing s txt =
     (let (frames, audio) = engine s txt (sid s) (speed s)
      in case closing of
           None \<Rightarrow>
             (case run_callback rs s frames of
                Inl e \<Rightarrow> Inl e
              | Inr s' \<Rightarrow> Inr (s', audio))
         | Some k \<Rightarrow>
             (case run_callback rs s (take k frames) of
                Inl e \<Rightarrow> Inl e
              | Inr s' \<Rightarrow>
                  (case run_callback rs (tts_close s') (drop k frames) of
                     Inl e \<Rightarrow> Inl e
                   | Inr s'' \<Rightarrow> Inr (s'', audio))))"

text \<open>
  The loop of \<^verbatim>\<open>TTSStream.write\<close> over \<^verbatim>\<open>enumerate(texts)\<close>, with the accumulators
  \<^verbatim>\<open>audio_duration\<close> and \<^verbatim>\<open>audio_size\<close>; \<open>n\<close> is \<^verbatim>\<open>len(texts)\<close> and
  \<open>closing idx\<close> says whether \<^verbatim>\<open>close()\<close> runs during the synthesis of segment
  \<open>idx\<close>. \<^verbatim>\<open>np.zeros\<close> raises ValueError on a negative size.
  \<^verbatim>\<open>int(...)\<close> truncates the double exactly.
\<close>

fun write_loop ::
  "resampler \<Rightarrow> float_mul \<Rightarrow> (nat \<Rightarrow> nat option) \<Rightarrow> bool \<Rightarrow> rat \<Rightarrow> nat \<Rightarrow>
     (nat \<times> unicode) list \<Rightarrow> tts_stream \<Rightarrow> rat \<Rightarrow> nat \<Rightarrow>
     py_error + (tts_stream \<times> rat \<times> nat)" where
  "write_loop rs fm closing split pause n [] s dur asize = Inr (s, dur, asize)"
| "write_loop rs fm closing split pause n ((idx, raw) # rest) s dur asize =
     (let txt = strip raw
      in if txt = [] then write_loop rs fm closing split pause n rest s dur asize
         else
           case engine_generate rs (closing idx) s txt of
             Inl e \<Rightarrow> Inl e
           | Inr (s1, None) \<Rightarrow> write_loop rs fm closing split pause n rest s1 dur asize
           | Inr (s1, Some audio) \<Rightarrow>
               if sample_rate audio = 0 \<or> samples audio = [] then
                 write_loop rs fm closing split pause n rest s1 dur asize
               else
                 case (if split \<and> int idx < int n - 1 then
                         let k = py_int (fm (of_nat (sample_rate audio)) pause)
                         in if k < 0 then Inl ValueError
                            else
                              let noise = replicate (nat k) (0 :: sample)
                              in case on_process rs s1 noise 1 of
                                   Inl e \<Rightarrow> Inl e
                                 | Inr (s2, _) \<Rightarrow> Inr (s2, samples audio @ noise)
                       else Inr (s1, samples audio)) of
                   Inl e \<Rightarrow> Inl e
                 | Inr (s2, smp) \<Rightarrow>
                     write_loop rs fm closing split pause n rest s2
                       (dur + of_nat (length smp) / of_nat (sample_rate audio))
                       (asize + length smp))"

text \<open>\<^verbatim>\<open>TTSStream.write\<close>; \<open>t_start\<close> and \<open>t_end\<close> are the two readings of
  \<^verbatim>\<open>time.time()\<close>. The summary gets \<^verbatim>\<open>elapsed\<close>, \<^verbatim>\<open>audio_duration\<close>,
  \<^verbatim>\<open>progress\<close> and \<^verbatim>\<open>finished\<close>, and nothing else.\<close>

definition tts_write ::
  "resampler \<Rightarrow> float_mul \<Rightarrow> (nat \<Rightarrow> nat option) \<Rightarrow> rat \<Rightarrow> rat \<Rightarrow> tts_stream \<Rightarrow> unicode \<Rightarrow>
     bool \<Rightarrow> rat \<Rightarrow> py_error + tts_stream" where
  "tts_write rs fm closing t_start t_end s txt split pause =
     (let texts = (if split then re_split splitter txt else [txt])
      in case write_loop rs fm closing split pause (length texts) (enumerate 0 texts) s 0 0 of
           Inl e \<Rightarrow> Inl e
         | Inr (s1, dur, asize) \<Rightarrow>
             let elapsed_seconds = t_end - t_start;
                 r = (TTSResult None True)
                       \<lparr>elapsed := elapsed_seconds, audio_duration := dur, progress := 1,
                        finished := True\<rparr>
             in Inr (s1\<lparr>tts_outbuf := tts_outbuf s1 @ [Some r]\<rparr>))"

text \<open>\<^verbatim>\<open>TTSStream.generate\<close>, up to the audio handed to \<^verbatim>\<open>soundfile.write\<close>. No
  callback is passed, so the frames of the engine are not used.\<close>

definition generate :: "resampler \<Rightarrow> tts_stream \<Rightarrow> unicode \<Rightarrow> py_error + generated_audio" where
  "generate rs s txt =
     (case snd (engine s txt (sid s) (speed s)) of
        None \<Rightarrow> Inl AttributeError
      | Some audio \<Rightarrow>
          if sample_rate audio = 0 then Inl ZeroDivisionError
          else if target_sample_rate s \<noteq> sample_rate audio then
            case rs (samples audio)
                   (length (samples audio) * target_sample_rate s div sample_rate audio) of
              Inl e \<Rightarrow> Inl e
            | Inr resampled_samples \<Rightarrow>
                Inr (audio\<lparr>samples := resampled_samples,
                           sample_rate := target_sample_rate s\<rparr>)
          else Inr audio)"

subsection \<open>Notions used to state the properties of the TTS stream\<close>

text \<open>The resampling step of \<^verbatim>\<open>on_process\<close> on its own, and the non-final result
  that \<^verbatim>\<open>on_process\<close> builds from the resampled chunk.\<close>

definition resampled :: "resampler \<Rightarrow> tts_stream \<Rightarrow> sample list \<Rightarrow> py_error + sample list" where
  "resampled rs s chunk =
     (if target_sample_rate s \<noteq> original_sample_rate s then
        if original_sample_rate s = 0 then Inl ZeroDivisionError
        else rs chunk (length chunk * target_sample_rate s div original_sample_rate s)
      else Inr chunk)"

definition pcm_result :: "sample list \<Rightarrow> tts_result" where
  "pcm_result chunk = TTSResult (Some (tobytes (map to_int16 chunk))) False"

text \<open>Two states of a stream that differ in the queue and the closed flag at most.\<close>

definition same_setup :: "tts_stream \<Rightarrow> tts_stream \<Rightarrow> bool" where
  "same_setup s s' \<longleftrightarrow>
     engine s' = engine s \<and> sid s' = sid s \<and> speed s' = speed s \<and>
     target_sample_rate s' = target_sample_rate s \<and>
     original_sample_rate s' = original_sample_rate s"

text \<open>
  For the accounting of a \<^verbatim>\<open>write\<close>: the segments that the loop synthesizes (not empty
  after trimming, and the engine returns audio with a sample rate and samples), the pure
  speech they hold, the samples of the gap of a segment, and the segments that get one.
\<close>

fun synthesized :: "tts_stream \<Rightarrow> (nat \<times> unicode) list \<Rightarrow> (nat \<times> generated_audio) list" where
  "synthesized s [] = []"
| "synthesized s ((idx, raw) # rest) =
     (if strip raw = [] then synthesized s rest
      else case snd (engine s (strip raw) (sid s) (speed s)) of
             None \<Rightarrow> synthesized s rest
           | Some audio \<Rightarrow>
               if sample_rate audio = 0 \<or> samples audio = [] then synthesized s rest
               else (idx, audio) # synthesized s rest)"

definition gap_samples :: "float_mul \<Rightarrow> rat \<Rightarrow> generated_audio \<Rightarrow> nat" where
  "gap_samples fm pause audio = nat (py_int (fm (of_nat (sample_rate audio)) pause))"

definition gapped :: "bool \<Rightarrow> nat \<Rightarrow> (nat \<times> generated_audio) list \<Rightarrow> (nat \<times> generated_audio) list" where
  "gapped split n segs = filter (\<lambda>(idx, audio). split \<and> int idx < int n - 1) segs"

definition speech_duration :: "(nat \<times> generated_audio) list \<Rightarrow> rat" where
  "speech_duration segs =
     sum_list (map (\<lambda>(idx, audio). of_nat (length (samples audio)) / of_nat (sample_rate audio)) segs)"

definition speech_size :: "(nat \<times> generated_audio) list \<Rightarrow> nat" where
  "speech_size segs = sum_list (map (\<lambda>(idx, audio). length (samples audio)) segs)"

definition gap_duration :: "float_mul \<Rightarrow> rat \<Rightarrow> (nat \<times> generated_audio) list \<Rightarrow> rat" where
  "gap_duration fm pause segs =
     sum_list
       (map (\<lambda>(idx, audio). of_nat (gap_samples fm pause audio) / of_nat (sample_rate audio))
          segs)"

definition gap_size :: "float_mul \<Rightarrow> rat \<Rightarrow> (nat \<times> generated_audio) list \<Rightarrow> nat" where
  "gap_size fm pause segs = sum_list (map (\<lambda>(idx, audio). gap_samples fm pause audio) segs)"

section \<open>The engine caches\<close>

text \<open>
  \<^verbatim>\<open>_tts_engines\<close> and \<^verbatim>\<open>_speaker_engines\<close> are module-level dictionaries from
  a model name to an engine object. An engine object is modelled by its identity, a
  number that is fresh at each construction; the module state also keeps the log of the
  constructions performed, which the source does not have, so that they can be counted.
  Whether the model files make a valid configuration (\<^verbatim>\<open>tts_config.validate()\<close>) or
  exist on disk (\<^verbatim>\<open>os.path.exists\<close>) is a parameter of each call. Of
  \<^verbatim>\<open>tts_configs\<close> only the sample rate is kept.

  Both functions are synchronous and contain no suspension point, and every caller runs
  on the event loop (the startup handler and the websocket handlers, through
  \<^verbatim>\<open>start_tts_stream\<close> and \<^verbatim>\<open>start_speaker_stream\<close>): calls made by concurrent
  coroutines run one after the other, in some order. A schedule of concurrent calls is
  therefore a list of calls.
\<close>

type_synonym engine_id = nat

record tts_module =
  tts_engines :: "string \<rightharpoonup> engine_id"
  tts_constructed :: "string list"

definition tts_configs :: "string \<rightharpoonup> nat" where
  "tts_configs =
     map_of [(''vits-zh-hf-theresa'', 22050), (''vits-melo-tts-zh_en'', 44100),
             (''kokoro-multi-lang-v1_0'', 24000)]"

definition get_tts_engine ::
  "(string \<Rightarrow> bool) \<Rightarrow> tts_module \<Rightarrow> string \<Rightarrow> py_error + ((engine_id \<times> nat) \<times> tts_module)" where
  "get_tts_engine validate m tts_model =
     (case tts_configs tts_model of
        None \<Rightarrow> Inl KeyError
      | Some rate \<Rightarrow>
          (case tts_engines m tts_model of
             Some cache_engine \<Rightarrow> Inr ((cache_engine, rate), m)
           | None \<Rightarrow>
               if \<not> validate tts_model then Inl ValueError
               else
                 let cache_engine = length (tts_constructed m)
                 in Inr ((cache_engine, rate),
                         m\<lparr>tts_constructed := tts_constructed m @ [tts_model],
                           tts_engines := (tts_engines m)(tts_model \<mapsto> cache_engine)\<rparr>)))"

record speaker_module =
  speaker_engines :: "string \<rightharpoonup> engine_id"
  speaker_constructed :: "string list"

definition load_speaker_engine ::
  "(string \<Rightarrow> bool) \<Rightarrow> speaker_module \<Rightarrow> string \<Rightarrow> py_error + (engine_id \<times> speaker_module)" where
  "load_speaker_engine found m model_name =
     (case speaker_engines m model_name of
        Some cache_engine \<Rightarrow> Inr (cache_engine, m)
      | None \<Rightarrow>
          if model_name = ''wespeaker-voxceleb'' \<or> model_name = ''3dspeaker'' \<or>
             model_name = ''nemo-speakernet'' then
            if \<not> found model_name then Inl ValueError
            else
              let cache_engine = length (speaker_constructed m)
              in Inr (cache_engine,
                      m\<lparr>speaker_constructed := speaker_constructed m @ [model_name],
                        speaker_engines := (speaker_engines m)(model_name \<mapsto> cache_engine)\<rparr>)
          else Inl ValueError)"

fun tts_calls :: "tts_module \<Rightarrow> ((string \<Rightarrow> bool) \<times> string) list \<Rightarrow> tts_module" where
  "tts_calls m [] = m"
| "tts_calls m ((validate, tts_model) # later) =
     (case get_tts_engine validate m tts_model of
        Inl e \<Rightarrow> tts_calls m later
      | Inr (r, m') \<Rightarrow> tts_calls m' later)"

fun speaker_calls :: "speaker_module \<Rightarrow> ((string \<Rightarrow> bool) \<times> string) list \<Rightarrow> speaker_module" where
  "speaker_calls m [] = m"
| "speaker_calls m ((found, model_name) # later) =
     (case load_speaker_engine found m model_name of
        Inl e \<Rightarrow> speaker_calls m later
      | Inr (r, m') \<Rightarrow> speaker_calls m' later)"

text \<open>The log has no duplicates and lists exactly the cached models.\<close>

definition tts_inv :: "tts_module \<Rightarrow> bool" where
  "tts_inv m \<longleftrightarrow> distinct (tts_constructed m) \<and> set (tts_constructed m) = dom (tts_engines m)"

definition speaker_inv :: "speaker_module \<Rightarrow> bool" where
  "speaker_inv m \<longleftrightarrow>
     distinct (speaker_constructed m) \<and> set (speaker_constructed m) = dom (speaker_engines m)"

section \<open>Inputs for examples, and the rounding of the specification\<close>

text \<open>
  A stand-in for \<^verbatim>\<open>scipy.signal.resample\<close>: it returns \<open>num\<close> samples and raises
  for an empty input and for \<open>num = 0\<close>, as the library does. The product of doubles
  where it is exact, as it is when an integer below \<open>2 ^ 53\<close> is multiplied by 0.25.
  Two engines that offer two frames and return three samples for every text, at 24000 Hz
  and at 22050 Hz, and a stream on each whose target rate is the native rate.
\<close>

definition zero_resample :: resampler where
  "zero_resample x num = (if x = [] \<or> num = 0 then Inl ValueError else Inr (replicate num 0))"

definition exact_mul :: float_mul where
  "exact_mul x y = x * y"

text \<open>No \<^verbatim>\<open>close()\<close> during any engine call.\<close>

definition never_closing :: "nat \<Rightarrow> nat option" where
  "never_closing idx = None"

definition example_tts_engine :: tts_engine where
  "example_tts_engine txt sp_id spd =
     ([([1 / 2, - 1 / 2], 1 / 2), ([1 / 4], 1)],
      Some \<lparr>samples = [1 / 2, - 1 / 2, 1 / 4], sample_rate = 24000\<rparr>)"

definition example_tts_stream :: tts_stream where
  "example_tts_stream = TTSStream example_tts_engine 0 1 24000 24000"

definition vits_tts_engine :: tts_engine where
  "vits_tts_engine txt sp_id spd =
     ([([1 / 2, - 1 / 2], 1 / 2), ([1 / 4], 1)],
      Some \<lparr>samples = [1 / 2, - 1 / 2, 1 / 4], sample_rate = 22050\<rparr>)"

definition vits_tts_stream :: tts_stream where
  "vits_tts_stream = TTSStream vits_tts_engine 0 1 22050 22050"

text \<open>The \<^verbatim>\<open>round\<close> of the specification's resampling formula: Python's rounding to
  the nearest integer, ties to the even one. It is not part of the code.\<close>

definition py_round :: "rat \<Rightarrow> int" where
  "py_round x =
     (let f = \<lfloor>x\<rfloor>; r = x - of_int f
      in if r < 1 / 2 then f else if r > 1 / 2 then f + 1 else if even f then f else f + 1)"

section \<open>The speaker websocket handler (app.py) and engines for examples\<close>

text \<open>
  The receiving task of \<^verbatim>\<open>websocket_speaker_id\<close> in \<^verbatim>\<open>app.py\<close>: it passes every
  binary frame to \<^verbatim>\<open>write\<close> and returns on an empty frame; when no frame is left
  the peer has gone and \<^verbatim>\<open>receive_bytes\<close> raises WebSocketDisconnect. The handler
  catches WebSocketDisconnect only, and closes the stream in its \<^verbatim>\<open>finally\<close> block
  on every exception. After an empty frame the handler goes on waiting for its sending
  task, and the stream is as the receiving task left it.
\<close>

fun task_recv_pcm :: "speaker_stream \<Rightarrow> byte list list \<Rightarrow> py_error option \<times> speaker_stream" where
  "task_recv_pcm s [] = (Some WebSocketDisconnect, s)"
| "task_recv_pcm s (data # later) =
     (if data = [] then (None, s)
      else case spk_write s data of
             Inl e \<Rightarrow> (Some e, s)
           | Inr s' \<Rightarrow> task_recv_pcm s' later)"

definition websocket_speaker_id ::
  "speaker_stream \<Rightarrow> byte list list \<Rightarrow> py_error option \<times> speaker_stream" where
  "websocket_speaker_id s frames =
     (case task_recv_pcm s frames of
        (None, s') \<Rightarrow> (None, s')
      | (Some e, s') \<Rightarrow> (if e = WebSocketDisconnect then None else Some e, spk_close s'))"

text \<open>The sending tasks of the handlers read until the first falsy result, the
  end-of-stream sentinel, and return; what they have sent and what stays in the queue:\<close>

fun until_sentinel :: "'a option list \<Rightarrow> 'a list \<times> 'a option list" where
  "until_sentinel [] = ([], [])"
| "until_sentinel (None # rest) = ([], rest)"
| "until_sentinel (Some r # rest) = (let (out, q) = until_sentinel rest in (r # out, q))"

text \<open>Engines used where a property is shown at a concrete input: an extractor that is
  always ready, one that never is, and a manager that knows one speaker.\<close>

definition example_extractor :: speaker_extractor where
  "example_extractor = \<lparr>is_ready = \<lambda>rate buf. True, compute = \<lambda>rate buf. [1, 0]\<rparr>"

definition unready_extractor :: speaker_extractor where
  "unready_extractor = \<lparr>is_ready = \<lambda>rate buf. False, compute = \<lambda>rate buf. [1, 0]\<rparr>"

definition example_manager :: speaker_manager where
  "example_manager = \<lparr>search = \<lambda>emb threshold. ''alice''\<rparr>"

definition example_speaker_stream :: speaker_stream where
  "example_speaker_stream = SpeakerStream example_extractor example_manager 16000 (7 / 10)"

definition unready_speaker_stream :: speaker_stream where
  "unready_speaker_stream = SpeakerStream unready_extractor example_manager 16000 (7 / 10)"

section \<open>Properties of the speaker stream\<close>

lemma until_sentinel_append:
  "None \<notin> set q \<Longrightarrow> until_sentinel (q @ None # rest) = (map the q, rest)"
proof (induction q)
  case Nil
  then show ?case by simp
next
  case (Cons a q)
  then show ?case by (cases a) auto
qed

lemma spk_write_odd: "odd (length b) \<Longrightarrow> spk_write s b = Inl ValueError"
  by (simp add: spk_write_def frombuffer_int16_def odd_iff_mod_2_eq_one)

lemma length_int16_pairs: "length (int16_pairs b) = length b div 2"
  by (induction b rule: int16_pairs.induct) auto

lemma spk_write_even:
  "even (length b) \<Longrightarrow>
     spk_write s b =
       Inr (s\<lparr>spk_inbuf := spk_inbuf s @ [map (\<lambda>v. (of_int v :: rat) / 32768) (int16_pairs b)]\<rparr>)"
  by (simp add: spk_write_def frombuffer_int16_def)

lemma run_iteration_below:
  assumes "spk_sample_rate s \<noteq> 0"
    and "(of_nat (length (audio_buffer s @ c)) :: rat) / of_nat (spk_sample_rate s) < min_duration s"
  shows "run_iteration s c = Inr (s\<lparr>audio_buffer := audio_buffer s @ c\<rparr>)"
  using assms by (simp add: run_iteration_def Let_def)

lemma run_iteration_reached:
  assumes "spk_sample_rate s \<noteq> 0"
    and "(of_nat (length (audio_buffer s @ c)) :: rat) / of_nat (spk_sample_rate s) \<ge> min_duration s"
    and "is_ready (extractor s) (spk_sample_rate s) (audio_buffer s @ c)"
  shows "run_iteration s c = Inr (s\<lparr>spk_outbuf := spk_outbuf s @
     [Some (let emb = compute (extractor s) (spk_sample_rate s) (audio_buffer s @ c);
                r = search (manager s) emb (identification_threshold s)
            in if r \<noteq> [] then SpeakerResult r (identification_threshold s + 1 / 20) emb
               else SpeakerResult ''unknown'' 0 emb)], audio_buffer := []\<rparr>)"
  using assms by (simp add: run_iteration_def Let_def)

lemma run_iteration_not_ready:
  assumes "spk_sample_rate s \<noteq> 0"
    and "\<not> is_ready (extractor s) (spk_sample_rate s) (audio_buffer s @ c)"
  shows "run_iteration s c = Inr (s\<lparr>audio_buffer := audio_buffer s @ c\<rparr>)"
  using assms by (simp add: run_iteration_def Let_def)

lemma duration_mono:
  assumes "(of_nat (a + b) :: rat) / of_nat r < m"
  shows "(of_nat a :: rat) / of_nat r < m"
proof -
  have "(of_nat a :: rat) / of_nat r \<le> of_nat (a + b) / of_nat r"
    by (rule divide_right_mono) simp_all
  with assms show ?thesis by simp
qed

text \<open>On an open stream the place of suspension does not matter.\<close>

lemma run_open_pending:
  assumes "\<not> spk_is_closed s"
  shows "run (s\<lparr>run_pending := b\<rparr>) = run s"
  using assms
  by (simp add: run.simps[of s] run.simps[of "s\<lparr>run_pending := b\<rparr>"] split: list.splits)

lemma run_open_empty:
  assumes "\<not> spk_is_closed s" "spk_inbuf s = []"
  shows "run s = Inr (s\<lparr>run_pending := True\<rparr>)"
  using assms by (subst run.simps) simp

lemma run_open_step:
  assumes "\<not> spk_is_closed s" "spk_inbuf s = c # rest"
    and "run_iteration (s\<lparr>spk_inbuf := rest, run_pending := False\<rparr>) c = Inr s'"
  shows "run s = run s'"
  using assms by (subst run.simps) simp

text \<open>A task that waits in \<^verbatim>\<open>inbuf.get()\<close> when the stream is closed still takes the
  next chunk, and ends after it: the chunk behind it stays in the queue.\<close>

lemma run_closed_pending:
  assumes "spk_is_closed s" "run_pending s" "spk_inbuf s = c # rest"
    and "run_iteration (s\<lparr>spk_inbuf := rest, run_pending := False\<rparr>) c = Inr s'"
  shows "run s = Inr s'"
proof -
  have "spk_is_closed s' \<and> \<not> run_pending s'"
    using assms by (auto simp: run_iteration_def Let_def split: if_splits)
  then have "run s' = Inr s'" by (subst run.simps) simp
  then show ?thesis using assms by (subst run.simps) simp
qed

text \<open>While the buffered duration stays below the minimum, the loop only accumulates.\<close>

lemma run_prefix_below:
  assumes "\<not> spk_is_closed s" "spk_sample_rate s \<noteq> 0"
    and "spk_inbuf s = chunks @ rest"
    and "(of_nat (length (audio_buffer s) + length (concat chunks)) :: rat)
           / of_nat (spk_sample_rate s) < min_duration s"
  shows "run s = run (s\<lparr>spk_inbuf := rest, audio_buffer := audio_buffer s @ concat chunks\<rparr>)"
  using assms
proof (induction chunks arbitrary: s)
  case Nil
  then have "s\<lparr>spk_inbuf := rest, audio_buffer := audio_buffer s @ concat []\<rparr> = s" by simp
  then show ?case by simp
next
  case (Cons c cs)
  let ?s1 = "s\<lparr>spk_inbuf := cs @ rest, run_pending := False\<rparr>"
  let ?s2 = "?s1\<lparr>audio_buffer := audio_buffer s @ c\<rparr>"
  have lt: "(of_nat (length (audio_buffer s @ c)) :: rat) / of_nat (spk_sample_rate s)
              < min_duration s"
    using Cons.prems(4) duration_mono[of "length (audio_buffer s) + length c" "length (concat cs)"]
    by (simp add: add.assoc)
  have it: "run_iteration ?s1 c = Inr ?s2"
    using run_iteration_below[of ?s1 c] Cons.prems(2) lt by simp
  have st: "run s = run ?s2"
    using Cons.prems(1,3) it by (intro run_open_step[of s c "cs @ rest"]) simp_all
  have "run ?s2 = run (?s2\<lparr>spk_inbuf := rest, audio_buffer := audio_buffer ?s2 @ concat cs\<rparr>)"
    using Cons.prems by (intro Cons.IH) (simp_all add: add.assoc)
  also have "\<dots> = run ((s\<lparr>spk_inbuf := rest,
                 audio_buffer := audio_buffer s @ concat (c # cs)\<rparr>)\<lparr>run_pending := False\<rparr>)"
    by (cases s) simp
  also have "\<dots> = run (s\<lparr>spk_inbuf := rest, audio_buffer := audio_buffer s @ concat (c # cs)\<rparr>)"
    using Cons.prems(1) by (intro run_open_pending) simp
  finally show ?case using st by simp
qed

lemma run_below:
  assumes "\<not> spk_is_closed s" "spk_sample_rate s \<noteq> 0"
    and "(of_nat (length (audio_buffer s) + length (concat (spk_inbuf s))) :: rat)
           / of_nat (spk_sample_rate s) < min_duration s"
  shows "run s = Inr (s\<lparr>spk_inbuf := [], audio_buffer := audio_buffer s @ concat (spk_inbuf s),
                         run_pending := True\<rparr>)"
proof -
  let ?t = "s\<lparr>spk_inbuf := [], audio_buffer := audio_buffer s @ concat (spk_inbuf s)\<rparr>"
  have "run s = run ?t"
    using assms by (intro run_prefix_below) simp_all
  moreover have "run ?t = Inr (?t\<lparr>run_pending := True\<rparr>)"
    using assms(1) by (intro run_open_empty) simp_all
  ultimately show ?thesis by simp
qed

lemma run_iteration_verdict:
  assumes "run_iteration s c = Inr s'"
  shows "extractor s' = extractor s \<and> manager s' = manager s \<and> spk_sample_rate s' = spk_sample_rate s
     \<and> identification_threshold s' = identification_threshold s \<and>
     (spk_outbuf s' = spk_outbuf s \<or>
      (\<exists>v buf. spk_outbuf s' = spk_outbuf s @ [Some v] \<and>
         embeddings v = compute (extractor s) (spk_sample_rate s) buf \<and>
         (if search (manager s) (embeddings v) (identification_threshold s) \<noteq> [] then
            speaker_id v = search (manager s) (embeddings v) (identification_threshold s) \<and>
            confidence v = identification_threshold s + 1 / 20
          else speaker_id v = ''unknown'' \<and> confidence v = 0)))"
proof -
  let ?buf = "audio_buffer s @ c"
  let ?emb = "compute (extractor s) (spk_sample_rate s) ?buf"
  let ?r = "search (manager s) ?emb (identification_threshold s)"
  let ?v = "if ?r \<noteq> [] then SpeakerResult ?r (identification_threshold s + 1 / 20) ?emb
            else SpeakerResult ''unknown'' 0 ?emb"
  from assms consider
      (keep) "s' = s\<lparr>audio_buffer := ?buf\<rparr>"
    | (emit) "s' = s\<lparr>audio_buffer := ?buf, spk_outbuf := spk_outbuf s @ [Some ?v], audio_buffer := []\<rparr>"
    by (auto simp: run_iteration_def Let_def split: if_splits)
  then show ?thesis
  proof cases
    case keep
    then show ?thesis by simp
  next
    case emit
    have "embeddings ?v = ?emb" by (simp add: SpeakerResult_def)
    moreover have "if search (manager s) (embeddings ?v) (identification_threshold s) \<noteq> [] then
            speaker_id ?v = search (manager s) (embeddings ?v) (identification_threshold s) \<and>
            confidence ?v = identification_threshold s + 1 / 20
          else speaker_id ?v = ''unknown'' \<and> confidence ?v = 0"
      by (simp add: SpeakerResult_def)
    ultimately show ?thesis using emit by (auto simp del: One_nat_def intro!: exI[of _ ?v] exI[of _ ?buf])
  qed
qed

subsection \<open>Odd-length buffers\<close>

text \<open>
  Claim C3, as the code has it: for every odd-length byte buffer, \<^verbatim>\<open>SpeakerStream.write\<close>
  raises the ValueError of \<^verbatim>\<open>np.frombuffer\<close> to its caller before anything is
  enqueued, so the chunk never reaches the input queue and the stream object is left as
  it was; the websocket handler does not catch the error: it closes the stream and
  receives no further frame.
\<close>

theorem odd_buffer_raises:
  assumes "odd (length data)"
  shows "spk_write s data = Inl ValueError \<and>
         websocket_speaker_id s (data # later) = (Some ValueError, spk_close s)"
proof -
  have w: "spk_write s data = Inl ValueError"
    using assms by (rule spk_write_odd)
  moreover have "data \<noteq> []" using assms by auto
  ultimately show ?thesis by (simp add: websocket_speaker_id_def)
qed

text \<open>The theorem at a one-byte frame followed by a well-formed frame.\<close>

theorem odd_buffer_raises_witness:
  "odd (length [1 :: byte]) \<and>
   spk_write example_speaker_stream [1] = Inl ValueError \<and>
   websocket_speaker_id example_speaker_stream [[1], [0, 0]] =
     (Some ValueError, spk_close example_speaker_stream)"
  using odd_buffer_raises[of "[1]" example_speaker_stream "[[0, 0]]"] by simp

text \<open>
  The claim as stated (the stream continues operating after an odd-length buffer) fails:
  after the frames \<open>[1]\<close> and \<open>[0, 0]\<close> the handler has closed the stream, the output
  queue holds the end sentinel, and the well-formed second frame was never written.
\<close>

theorem odd_buffer_counterexample:
  "websocket_speaker_id example_speaker_stream [[1], [0, 0]] =
     (Some ValueError,
      example_speaker_stream\<lparr>spk_is_closed := True, spk_outbuf := [None]\<rparr>) \<and>
   spk_inbuf (snd (websocket_speaker_id example_speaker_stream [[1], [0, 0]])) = []"
  by (simp add: websocket_speaker_id_def spk_write_def frombuffer_int16_def spk_close_def
      example_speaker_stream_def SpeakerStream_def)

subsection \<open>The identification window\<close>

text \<open>
  Claim C4, as the code has it: on an open stream whose buffer is empty, while the
  accumulated audio is shorter than 3.0 seconds the loop produces no verdict and keeps
  accumulating; when a chunk brings the buffered duration to at least 3.0 seconds and
  the extractor reports the stream ready, exactly one verdict is produced, the buffer is
  emptied, and the chunks that follow accumulate from zero samples; when the extractor
  does not report ready, no verdict is produced and the buffer is kept.
\<close>

theorem identification_window:
  assumes "\<not> spk_is_closed s" and "spk_sample_rate s \<noteq> 0" and "min_duration s = 3"
    and "audio_buffer s = []"
  shows
    "((of_nat (length (concat chunks)) :: rat) / of_nat (spk_sample_rate s) < 3 \<longrightarrow>
        run (s\<lparr>spk_inbuf := chunks\<rparr>) =
          Inr (s\<lparr>spk_inbuf := [], audio_buffer := concat chunks, run_pending := True\<rparr>)) \<and>
     ((of_nat (length (concat chunks)) :: rat) / of_nat (spk_sample_rate s) < 3 \<and>
      (of_nat (length (concat chunks @ c)) :: rat) / of_nat (spk_sample_rate s) \<ge> 3 \<and>
      (of_nat (length (concat later)) :: rat) / of_nat (spk_sample_rate s) < 3 \<longrightarrow>
        (if is_ready (extractor s) (spk_sample_rate s) (concat chunks @ c) then
           \<exists>v. run (s\<lparr>spk_inbuf := chunks @ c # later\<rparr>) =
                 Inr (s\<lparr>spk_inbuf := [], spk_outbuf := spk_outbuf s @ [Some v],
                        audio_buffer := concat later, run_pending := True\<rparr>)
         else
           run (s\<lparr>spk_inbuf := chunks @ [c]\<rparr>) =
             Inr (s\<lparr>spk_inbuf := [], audio_buffer := concat chunks @ c,
                    run_pending := True\<rparr>)))"
proof (intro conjI impI)
  assume "(of_nat (length (concat chunks)) :: rat) / of_nat (spk_sample_rate s) < 3"
  then show "run (s\<lparr>spk_inbuf := chunks\<rparr>) =
      Inr (s\<lparr>spk_inbuf := [], audio_buffer := concat chunks, run_pending := True\<rparr>)"
    using run_below[of "s\<lparr>spk_inbuf := chunks\<rparr>"] assms by simp
next
  let ?r = "spk_sample_rate s"
  assume h: "(of_nat (length (concat chunks)) :: rat) / of_nat ?r < 3 \<and>
      (of_nat (length (concat chunks @ c)) :: rat) / of_nat ?r \<ge> 3 \<and>
      (of_nat (length (concat later)) :: rat) / of_nat ?r < 3"
  let ?s1 = "s\<lparr>spk_inbuf := c # later, audio_buffer := concat chunks\<rparr>"
  have pre: "run (s\<lparr>spk_inbuf := chunks @ c # later\<rparr>) = run ?s1"
    using run_prefix_below[of "s\<lparr>spk_inbuf := chunks @ c # later\<rparr>" chunks "c # later"] assms h
    by simp
  let ?u1 = "s\<lparr>spk_inbuf := [c], audio_buffer := concat chunks\<rparr>"
  have pre': "run (s\<lparr>spk_inbuf := chunks @ [c]\<rparr>) = run ?u1"
    using run_prefix_below[of "s\<lparr>spk_inbuf := chunks @ [c]\<rparr>" chunks "[c]"] assms h
    by simp
  show "if is_ready (extractor s) ?r (concat chunks @ c) then
           \<exists>v. run (s\<lparr>spk_inbuf := chunks @ c # later\<rparr>) =
                 Inr (s\<lparr>spk_inbuf := [], spk_outbuf := spk_outbuf s @ [Some v],
                        audio_buffer := concat later, run_pending := True\<rparr>)
         else
           run (s\<lparr>spk_inbuf := chunks @ [c]\<rparr>) =
             Inr (s\<lparr>spk_inbuf := [], audio_buffer := concat chunks @ c,
                    run_pending := True\<rparr>)"
  proof (cases "is_ready (extractor s) ?r (concat chunks @ c)")
    case True
    let ?t = "?s1\<lparr>spk_inbuf := later, run_pending := False\<rparr>"
    obtain v where it:
      "run_iteration ?t c = Inr (?t\<lparr>spk_outbuf := spk_outbuf s @ [Some v], audio_buffer := []\<rparr>)"
      using run_iteration_reached[of ?t c] assms h True by simp
    let ?s2 = "?t\<lparr>spk_outbuf := spk_outbuf s @ [Some v], audio_buffer := []\<rparr>"
    have "run ?s1 = run ?s2"
      using assms(1) it by (intro run_open_step[of ?s1 c later]) simp_all
    moreover have "run ?s2 =
        Inr (?s2\<lparr>spk_inbuf := [], audio_buffer := audio_buffer ?s2 @ concat (spk_inbuf ?s2),
                   run_pending := True\<rparr>)"
      using assms h by (intro run_below) simp_all
    ultimately have "run (s\<lparr>spk_inbuf := chunks @ c # later\<rparr>) =
                 Inr (s\<lparr>spk_inbuf := [], spk_outbuf := spk_outbuf s @ [Some v],
                        audio_buffer := concat later, run_pending := True\<rparr>)"
      using pre by simp
    then show ?thesis using True by auto
  next
    case False
    let ?t = "?u1\<lparr>spk_inbuf := [], run_pending := False\<rparr>"
    have it: "run_iteration ?t c = Inr (?t\<lparr>audio_buffer := audio_buffer ?t @ c\<rparr>)"
      using assms False by (intro run_iteration_not_ready) simp_all
    let ?u2 = "?t\<lparr>audio_buffer := audio_buffer ?t @ c\<rparr>"
    have "run ?u1 = run ?u2"
      using assms(1) it by (intro run_open_step[of ?u1 c "[]"]) simp_all
    moreover have "run ?u2 = Inr (?u2\<lparr>run_pending := True\<rparr>)"
      using assms(1) by (intro run_open_empty) simp_all
    ultimately have "run (s\<lparr>spk_inbuf := chunks @ [c]\<rparr>) =
          Inr (s\<lparr>spk_inbuf := [], audio_buffer := concat chunks @ c, run_pending := True\<rparr>)"
      using pre' by simp
    then show ?thesis using False by simp
  qed
qed

text \<open>The theorem at 16000 Hz: one second, then two more seconds, then 100 samples.\<close>

theorem identification_window_witness:
  "\<not> spk_is_closed example_speaker_stream \<and> spk_sample_rate example_speaker_stream \<noteq> 0 \<and>
   min_duration example_speaker_stream = 3 \<and> audio_buffer example_speaker_stream = [] \<and>
   (of_nat (length (concat [replicate 16000 (0 :: sample)])) :: rat) / 16000 < 3 \<and>
   (of_nat (length (concat [replicate 16000 (0 :: sample)] @ replicate 32000 0)) :: rat) / 16000 \<ge> 3 \<and>
   (of_nat (length (concat [replicate 100 (0 :: sample)])) :: rat) / 16000 < 3 \<and>
   is_ready (extractor example_speaker_stream) 16000 (concat [replicate 16000 0] @ replicate 32000 0) \<and>
   run (example_speaker_stream\<lparr>spk_inbuf := [replicate 16000 0]\<rparr>) =
     Inr (example_speaker_stream\<lparr>audio_buffer := replicate 16000 0, run_pending := True\<rparr>) \<and>
   (\<exists>v. run (example_speaker_stream
               \<lparr>spk_inbuf := [replicate 16000 0, replicate 32000 0, replicate 100 0]\<rparr>) =
          Inr (example_speaker_stream\<lparr>spk_outbuf := [Some v], audio_buffer := replicate 100 0,
                 run_pending := True\<rparr>))"
  using identification_window[of example_speaker_stream "[replicate 16000 0]" "replicate 32000 0"
      "[replicate 100 0]"]
  by (simp add: example_speaker_stream_def example_extractor_def SpeakerStream_def)

text \<open>
  The claim as stated (a verdict and an empty buffer as soon as 3.0 seconds are buffered)
  fails when the extractor does not report ready: three seconds of audio at 16000 Hz
  give no verdict, and the 48000 samples stay in the buffer.
\<close>

theorem identification_window_counterexample:
  "(of_nat (length (replicate 48000 (0 :: sample))) :: rat) / 16000 \<ge> 3 \<and>
   spk_outbuf unready_speaker_stream = [] \<and>
   run (unready_speaker_stream\<lparr>spk_inbuf := [replicate 48000 0]\<rparr>) =
     Inr (unready_speaker_stream\<lparr>audio_buffer := replicate 48000 0, run_pending := True\<rparr>)"
  by (simp add: unready_speaker_stream_def unready_extractor_def SpeakerStream_def
      run.simps run_iteration_def)

subsection \<open>What a verdict carries\<close>

text \<open>
  Claim C5: every verdict that the identification loop puts into the output queue
  carries the embedding computed by the extractor; when the search of the manager
  returns a name, the verdict has that name and the confidence threshold + 0.05; when
  it returns no name, the verdict is "unknown" with confidence 0.
\<close>

theorem verdict_contents:
  "run s = Inr s' \<Longrightarrow>
     \<exists>vs. spk_outbuf s' = spk_outbuf s @ map Some vs \<and>
       (\<forall>v\<in>set vs.
          (\<exists>buf. embeddings v = compute (extractor s) (spk_sample_rate s) buf) \<and>
          (if search (manager s) (embeddings v) (identification_threshold s) \<noteq> [] then
             speaker_id v = search (manager s) (embeddings v) (identification_threshold s) \<and>
             confidence v = identification_threshold s + 1 / 20
           else speaker_id v = ''unknown'' \<and> confidence v = 0))"
proof (induction s arbitrary: s' rule: run.induct)
  case (1 s)
  show ?case
  proof (cases "\<not> run_pending s \<and> spk_is_closed s")
    case True
    then have "s' = s" using "1.prems" by (subst (asm) run.simps) simp
    then show ?thesis by (intro exI[of _ "[]"]) simp
  next
    case go: False
    show ?thesis
    proof (cases "spk_inbuf s")
      case Nil
      then have "s' = s\<lparr>run_pending := True\<rparr>"
        using "1.prems" go by (subst (asm) run.simps) auto
      then show ?thesis by (intro exI[of _ "[]"]) simp
    next
      case (Cons c rest)
      let ?s0 = "s\<lparr>spk_inbuf := rest, run_pending := False\<rparr>"
      from "1.prems" Cons go obtain s1 where
        it: "run_iteration ?s0 c = Inr s1" and r: "run s1 = Inr s'"
        by (subst (asm) run.simps) (auto split: sum.splits)
      note iv = run_iteration_verdict[OF it]
      from "1.IH"[OF go Cons it r] obtain vs where
        vs: "spk_outbuf s' = spk_outbuf s1 @ map Some vs"
        and ok: "\<forall>v\<in>set vs.
            (\<exists>buf. embeddings v = compute (extractor s1) (spk_sample_rate s1) buf) \<and>
            (if search (manager s1) (embeddings v) (identification_threshold s1) \<noteq> [] then
               speaker_id v = search (manager s1) (embeddings v) (identification_threshold s1) \<and>
               confidence v = identification_threshold s1 + 1 / 20
             else speaker_id v = ''unknown'' \<and> confidence v = 0)"
        by blast
      from iv have same: "extractor s1 = extractor s" "manager s1 = manager s"
        "spk_sample_rate s1 = spk_sample_rate s"
        "identification_threshold s1 = identification_threshold s"
        by simp_all
      from iv consider (keep) "spk_outbuf s1 = spk_outbuf s"
        | (emit) v buf where "spk_outbuf s1 = spk_outbuf s @ [Some v]"
           "embeddings v = compute (extractor s) (spk_sample_rate s) buf"
           "if search (manager s) (embeddings v) (identification_threshold s) \<noteq> [] then
              speaker_id v = search (manager s) (embeddings v) (identification_threshold s) \<and>
              confidence v = identification_threshold s + 1 / 20
            else speaker_id v = ''unknown'' \<and> confidence v = 0"
        by auto
      then show ?thesis
      proof cases
        case keep
        then show ?thesis using vs ok same by (intro exI[of _ vs]) simp
      next
        case emit
        then show ?thesis using vs ok same by (intro exI[of _ "v # vs"]) auto
      qed
    qed
  qed
qed

text \<open>The theorem at three seconds of audio and a manager that finds a speaker.\<close>

theorem verdict_contents_witness:
  "run (example_speaker_stream\<lparr>spk_inbuf := [replicate 48000 0]\<rparr>) =
     Inr (example_speaker_stream
            \<lparr>spk_outbuf := [Some (SpeakerResult ''alice'' (3 / 4) [1, 0])],
             run_pending := True\<rparr>) \<and>
   (\<exists>vs. spk_outbuf (example_speaker_stream
                       \<lparr>spk_outbuf := [Some (SpeakerResult ''alice'' (3 / 4) [1, 0])],
                        run_pending := True\<rparr>) =
          spk_outbuf (example_speaker_stream\<lparr>spk_inbuf := [replicate 48000 0]\<rparr>) @ map Some vs \<and>
      (\<forall>v\<in>set vs.
          (\<exists>buf. embeddings v =
                  compute (extractor (example_speaker_stream\<lparr>spk_inbuf := [replicate 48000 0]\<rparr>))
                    (spk_sample_rate (example_speaker_stream\<lparr>spk_inbuf := [replicate 48000 0]\<rparr>))
                    buf) \<and>
          (if search (manager (example_speaker_stream\<lparr>spk_inbuf := [replicate 48000 0]\<rparr>))
                (embeddings v)
                (identification_threshold
                  (example_speaker_stream\<lparr>spk_inbuf := [replicate 48000 0]\<rparr>)) \<noteq> []
           then speaker_id v =
                  search (manager (example_speaker_stream\<lparr>spk_inbuf := [replicate 48000 0]\<rparr>))
                    (embeddings v)
                    (identification_threshold
                      (example_speaker_stream\<lparr>spk_inbuf := [replicate 48000 0]\<rparr>)) \<and>
                confidence v =
                  identification_threshold
                    (example_speaker_stream\<lparr>spk_inbuf := [replicate 48000 0]\<rparr>) + 1 / 20
           else speaker_id v = ''unknown'' \<and> confidence v = 0)))"
proof -
  have h: "run (example_speaker_stream\<lparr>spk_inbuf := [replicate 48000 0]\<rparr>) =
     Inr (example_speaker_stream
            \<lparr>spk_outbuf := [Some (SpeakerResult ''alice'' (3 / 4) [1, 0])],
             run_pending := True\<rparr>)"
    by (simp add: example_speaker_stream_def example_extractor_def example_manager_def
        SpeakerStream_def run.simps run_iteration_def)
  show ?thesis
    by (rule conjI [OF h verdict_contents [OF h]])
qed

section \<open>Closing a stream twice\<close>

text \<open>
  Claim C7, as the code has it: for both streams, calling \<^verbatim>\<open>close()\<close> twice raises
  nothing and leaves the stream closed, and each call appends its own end-of-stream
  sentinel, so that the output queue then ends with two sentinels; a reader that stops
  at the first sentinel, as the sending tasks of the handlers do, has received the
  results queued before it and leaves the second sentinel in the queue.
\<close>

theorem close_twice:
  "tts_close (tts_close s) = (tts_close s)\<lparr>tts_outbuf := tts_outbuf s @ [None, None]\<rparr> \<and>
   spk_close (spk_close t) = (spk_close t)\<lparr>spk_outbuf := spk_outbuf t @ [None, None]\<rparr> \<and>
   (None \<notin> set (tts_outbuf s) \<longrightarrow>
      until_sentinel (tts_outbuf (tts_close (tts_close s))) = (map the (tts_outbuf s), [None])) \<and>
   (None \<notin> set (spk_outbuf t) \<longrightarrow>
      until_sentinel (spk_outbuf (spk_close (spk_close t))) = (map the (spk_outbuf t), [None]))"
  by (simp add: tts_close_def spk_close_def until_sentinel_append)

text \<open>The theorem at two fresh streams.\<close>

theorem close_twice_witness:
  "None \<notin> set (tts_outbuf (TTSStream (\<lambda>t i v. ([], None)) 0 1 16000 24000)) \<and>
   None \<notin> set (spk_outbuf example_speaker_stream) \<and>
   until_sentinel
     (tts_outbuf (tts_close (tts_close (TTSStream (\<lambda>t i v. ([], None)) 0 1 16000 24000)))) =
     ([], [None]) \<and>
   until_sentinel (spk_outbuf (spk_close (spk_close example_speaker_stream))) = ([], [None])"
  using close_twice[of "TTSStream (\<lambda>t i v. ([], None)) 0 1 16000 24000" example_speaker_stream]
  by (simp add: TTSStream_def example_speaker_stream_def SpeakerStream_def)

text \<open>
  The claim as stated (no duplicate end sentinel) fails: after two calls of
  \<^verbatim>\<open>close()\<close> on a fresh stream the output queue holds two sentinels.
\<close>

theorem close_twice_counterexample:
  "tts_outbuf (tts_close (tts_close (TTSStream (\<lambda>t i v. ([], None)) 0 1 16000 24000))) =
     [None, None] \<and>
   spk_outbuf (spk_close (spk_close example_speaker_stream)) = [None, None]"
  by (simp add: tts_close_def spk_close_def TTSStream_def example_speaker_stream_def
      SpeakerStream_def)

section \<open>Properties of the TTS stream\<close>

lemma length_tobytes: "length (tobytes vs) = 2 * length vs"
  by (induction vs) (simp_all add: tobytes_def Let_def)

lemma same_setup_refl: "same_setup s s"
  by (simp add: same_setup_def)

lemma same_setup_trans: "same_setup s s' \<Longrightarrow> same_setup s' s'' \<Longrightarrow> same_setup s s''"
  by (simp add: same_setup_def)

lemma same_setup_close: "same_setup s (tts_close s)"
  by (simp add: same_setup_def tts_close_def)

lemma same_setup_equal_rates:
  "same_setup s s' \<Longrightarrow> target_sample_rate s = original_sample_rate s \<Longrightarrow>
     target_sample_rate s' = original_sample_rate s'"
  by (simp add: same_setup_def)

lemma resampled_outbuf [simp]: "resampled rs (s\<lparr>tts_outbuf := q\<rparr>) c = resampled rs s c"
  by (simp add: resampled_def)

lemma resampled_equal:
  "target_sample_rate s = original_sample_rate s \<Longrightarrow> resampled rs s c = Inr c"
  by (simp add: resampled_def)

lemma pcm_result_fields:
  "finished (pcm_result c) = False" "pcm_bytes (pcm_result c) \<noteq> None"
  "progress (pcm_result c) = 0" "elapsed (pcm_result c) = 0"
  "audio_duration (pcm_result c) = 0" "audio_size (pcm_result c) = 0"
  by (simp_all add: pcm_result_def TTSResult_def)

lemma on_process_closed: "tts_is_closed s \<Longrightarrow> on_process rs s chunk p = Inr (s, 0)"
  by (simp add: on_process_def)

lemma on_process_open:
  assumes "\<not> tts_is_closed s" "resampled rs s chunk = Inr y"
  shows "on_process rs s chunk p =
           Inr (s\<lparr>tts_outbuf := tts_outbuf s @ [Some (pcm_result y)]\<rparr>, 1)"
  using assms
  by (auto simp: on_process_def resampled_def pcm_result_def Let_def split: if_splits)

lemma on_process_error:
  assumes "\<not> tts_is_closed s" "resampled rs s chunk = Inl e"
  shows "on_process rs s chunk p = Inl e"
  using assms by (auto simp: on_process_def resampled_def Let_def split: if_splits)

lemma on_process_Inr:
  assumes "on_process rs s chunk p = Inr (s', r)"
  shows "same_setup s s' \<and> tts_is_closed s' = tts_is_closed s"
proof (cases "tts_is_closed s")
  case True
  then show ?thesis using assms by (simp add: on_process_closed same_setup_refl)
next
  case False
  show ?thesis
  proof (cases "resampled rs s chunk")
    case (Inl e)
    then show ?thesis using assms False by (simp add: on_process_error)
  next
    case (Inr y)
    then show ?thesis using assms False by (auto simp: on_process_open same_setup_def)
  qed
qed

lemma on_process_equal:
  assumes "target_sample_rate s = original_sample_rate s"
  shows "\<exists>s' r. on_process rs s chunk p = Inr (s', r)"
proof (cases "tts_is_closed s")
  case True
  then show ?thesis by (simp add: on_process_closed)
next
  case False
  then show ?thesis using on_process_open[OF False resampled_equal[OF assms]] by blast
qed

lemma run_callback_closed: "tts_is_closed s \<Longrightarrow> run_callback rs s fs = Inr s"
  by (cases fs) (auto simp: on_process_closed)

lemma run_callback_open:
  assumes "\<not> tts_is_closed s" "map (\<lambda>(c, p). resampled rs s c) fs = map Inr ys"
  shows "run_callback rs s fs =
           Inr (s\<lparr>tts_outbuf := tts_outbuf s @ map (\<lambda>y. Some (pcm_result y)) ys\<rparr>)"
  using assms
proof (induction fs arbitrary: s ys)
  case Nil
  then show ?case by simp
next
  case (Cons f fs)
  obtain c p where f: "f = (c, p)" by (cases f)
  obtain y ys' where ys: "ys = y # ys'" "resampled rs s c = Inr y"
    "map (\<lambda>(c, p). resampled rs s c) fs = map Inr ys'"
    using Cons.prems(2) f by (cases ys) auto
  let ?s1 = "s\<lparr>tts_outbuf := tts_outbuf s @ [Some (pcm_result y)]\<rparr>"
  have op: "on_process rs s c p = Inr (?s1, 1)"
    using Cons.prems(1) ys(2) by (rule on_process_open)
  have "run_callback rs ?s1 fs =
      Inr (?s1\<lparr>tts_outbuf := tts_outbuf ?s1 @ map (\<lambda>y. Some (pcm_result y)) ys'\<rparr>)"
    using Cons.prems(1) ys(3) by (intro Cons.IH) simp_all
  then show ?case using f op ys(1) by simp
qed

lemma run_callback_Inr:
  "run_callback rs s fs = Inr s' \<Longrightarrow> same_setup s s'"
proof (induction fs arbitrary: s)
  case Nil
  then show ?case by (simp add: same_setup_refl)
next
  case (Cons f fs)
  obtain c p where f: "f = (c, p)" by (cases f)
  show ?case
  proof (cases "on_process rs s c p")
    case (Inl e)
    then show ?thesis using Cons.prems f by simp
  next
    case (Inr x)
    obtain s1 r where x: "x = (s1, r)" by (cases x)
    have ss: "same_setup s s1" using on_process_Inr Inr x by blast
    show ?thesis
    proof (cases "r = 0")
      case True
      then show ?thesis using Cons.prems f Inr x ss by simp
    next
      case False
      then have "run_callback rs s1 fs = Inr s'" using Cons.prems f Inr x by simp
      then have "same_setup s1 s'" by (rule Cons.IH)
      with ss show ?thesis by (rule same_setup_trans)
    qed
  qed
qed

lemma run_callback_equal:
  assumes "target_sample_rate s = original_sample_rate s"
  shows "\<exists>s'. run_callback rs s fs = Inr s'"
  using assms
proof (induction fs arbitrary: s)
  case Nil
  then show ?case by simp
next
  case (Cons f fs)
  obtain c p where f: "f = (c, p)" by (cases f)
  obtain s1 r where op: "on_process rs s c p = Inr (s1, r)"
    using on_process_equal[OF Cons.prems] by blast
  have "target_sample_rate s1 = original_sample_rate s1"
    using on_process_Inr[OF op] Cons.prems same_setup_equal_rates by blast
  then obtain s' where "run_callback rs s1 fs = Inr s'" using Cons.IH by blast
  then show ?case using f op by simp
qed

lemma engine_generate_Inr:
  assumes "engine_generate rs c s txt = Inr (s', audio)"
  shows "audio = snd (engine s txt (sid s) (speed s)) \<and> same_setup s s'"
proof -
  obtain frames a where e: "engine s txt (sid s) (speed s) = (frames, a)"
    by (cases "engine s txt (sid s) (speed s)")
  show ?thesis
  proof (cases c)
    case None
    then show ?thesis
      using assms e run_callback_Inr[of rs s frames]
      by (auto simp: engine_generate_def split: sum.splits)
  next
    case (Some k)
    from assms e Some obtain s1 where 1: "run_callback rs s (take k frames) = Inr s1"
      and 2: "run_callback rs (tts_close s1) (drop k frames) = Inr s'" and 3: "audio = a"
      by (auto simp: engine_generate_def split: sum.splits)
    have "same_setup s s1" using 1 by (rule run_callback_Inr)
    moreover have "same_setup s1 (tts_close s1)" by (rule same_setup_close)
    moreover have "same_setup (tts_close s1) s'" using 2 by (rule run_callback_Inr)
    ultimately have "same_setup s s'" using same_setup_trans by blast
    then show ?thesis using 3 e by simp
  qed
qed

lemma engine_generate_equal:
  assumes "target_sample_rate s = original_sample_rate s"
  shows "\<exists>s'. engine_generate rs c s txt = Inr (s', snd (engine s txt (sid s) (speed s)))"
proof -
  obtain frames a where e: "engine s txt (sid s) (speed s) = (frames, a)"
    by (cases "engine s txt (sid s) (speed s)")
  show ?thesis
  proof (cases c)
    case None
    obtain s' where "run_callback rs s frames = Inr s'"
      using run_callback_equal[OF assms] by blast
    then show ?thesis using e None by (simp add: engine_generate_def)
  next
    case (Some k)
    obtain s1 where 1: "run_callback rs s (take k frames) = Inr s1"
      using run_callback_equal[OF assms] by blast
    have "run_callback rs (tts_close s1) (drop k frames) = Inr (tts_close s1)"
      by (rule run_callback_closed) (simp add: tts_close_def)
    then show ?thesis using e Some 1 by (simp add: engine_generate_def)
  qed
qed

lemma engine_generate_open:
  assumes "\<not> tts_is_closed s" "engine s txt (sid s) (speed s) = (frames, audio)"
    and "map (\<lambda>(c, p). resampled rs s c) frames = map Inr ys"
  shows "engine_generate rs None s txt =
           Inr (s\<lparr>tts_outbuf := tts_outbuf s @ map (\<lambda>y. Some (pcm_result y)) ys\<rparr>, audio)"
  using assms by (simp add: engine_generate_def run_callback_open)

lemma synthesized_setup: "same_setup s s' \<Longrightarrow> synthesized s' items = synthesized s items"
  by (induction s items rule: synthesized.induct) (auto simp: same_setup_def split: option.splits)

lemma py_int_nonneg: "0 \<le> x \<Longrightarrow> 0 \<le> py_int x"
  by (simp add: py_int_def)

text \<open>What a completed loop has accumulated, whatever was closed on the way.\<close>

lemma write_loop_accounting:
  assumes "write_loop rs fm closing split pause n items s d z = Inr (s', d', z')"
  shows "d' = d + speech_duration (synthesized s items)
                + gap_duration fm pause (gapped split n (synthesized s items)) \<and>
         z' = z + speech_size (synthesized s items)
                + gap_size fm pause (gapped split n (synthesized s items)) \<and>
         same_setup s s'"
  using assms
proof (induction items arbitrary: s d z)
  case Nil
  then show ?case
    by (simp add: speech_duration_def speech_size_def gap_duration_def gap_size_def gapped_def
        same_setup_refl)
next
  case (Cons item rest)
  obtain idx raw where item: "item = (idx, raw)" by (cases item)
  show ?case
  proof (cases "strip raw = []")
    case True
    then show ?thesis using Cons.IH[of s d z] Cons.prems item by simp
  next
    case False
    show ?thesis
    proof (cases "engine_generate rs (closing idx) s (strip raw)")
      case (Inl e)
      then show ?thesis using Cons.prems item False by simp
    next
      case (Inr x)
      obtain s1 au where x: "x = (s1, au)" by (cases x)
      have eg: "engine_generate rs (closing idx) s (strip raw) = Inr (s1, au)"
        using Inr x by simp
      have au: "au = snd (engine s (strip raw) (sid s) (speed s))" and ss1: "same_setup s s1"
        using engine_generate_Inr[OF eg] by simp_all
      have syn1: "synthesized s1 rest = synthesized s rest" using ss1 by (rule synthesized_setup)
      show ?thesis
      proof (cases au)
        case None
        then have "write_loop rs fm closing split pause n rest s1 d z = Inr (s', d', z')"
          using Cons.prems item False eg by simp
        from Cons.IH[OF this] show ?thesis
          using item False None au syn1 ss1 same_setup_trans by auto
      next
        case (Some audio)
        show ?thesis
        proof (cases "sample_rate audio = 0 \<or> samples audio = []")
          case True
          then have "write_loop rs fm closing split pause n rest s1 d z = Inr (s', d', z')"
            using Cons.prems item False eg Some by auto
          from Cons.IH[OF this] show ?thesis
            using item False Some True au syn1 ss1 same_setup_trans by auto
        next
          case good: False
          have sums: "synthesized s (item # rest) = (idx, audio) # synthesized s rest"
            using item \<open>strip raw \<noteq> []\<close> Some au good by simp
          show ?thesis
          proof (cases "split \<and> int idx < int n - 1")
            case gap: True
            let ?k = "py_int (fm (of_nat (sample_rate audio)) pause)"
            let ?noise = "replicate (nat ?k) (0 :: sample)"
            have k0: "\<not> ?k < 0"
              using Cons.prems item \<open>strip raw \<noteq> []\<close> eg Some good gap
              by (auto simp: Let_def split: if_splits)
            obtain s2 r where op: "on_process rs s1 ?noise 1 = Inr (s2, r)"
              using Cons.prems item \<open>strip raw \<noteq> []\<close> eg Some good gap k0
              by (cases "on_process rs s1 ?noise 1") (auto simp: Let_def)
            have ss2: "same_setup s1 s2" using on_process_Inr[OF op] by simp
            have ss: "same_setup s s2" using ss1 ss2 by (rule same_setup_trans)
            have syn2: "synthesized s2 rest = synthesized s rest"
              using ss by (rule synthesized_setup)
            let ?d1 = "d + of_nat (length (samples audio @ ?noise)) / of_nat (sample_rate audio)"
            let ?z1 = "z + length (samples audio @ ?noise)"
            have "write_loop rs fm closing split pause n rest s2 ?d1 ?z1 = Inr (s', d', z')"
              using Cons.prems item \<open>strip raw \<noteq> []\<close> eg Some good gap k0 op
              by (simp add: Let_def)
            from Cons.IH[OF this] have
              "d' = ?d1 + speech_duration (synthesized s2 rest)
                      + gap_duration fm pause (gapped split n (synthesized s2 rest))"
              "z' = ?z1 + speech_size (synthesized s2 rest)
                      + gap_size fm pause (gapped split n (synthesized s2 rest))"
              "same_setup s2 s'"
              by simp_all
            then show ?thesis
              using syn2 sums gap ss same_setup_trans[of s s2 s']
              by (simp add: speech_duration_def speech_size_def gap_duration_def gap_size_def
                  gapped_def gap_samples_def add_divide_distrib)
          next
            case False
            then have nogap: "(split \<and> int idx < int n - 1) = False" by simp
            let ?d1 = "d + of_nat (length (samples audio)) / of_nat (sample_rate audio)"
            let ?z1 = "z + length (samples audio)"
            have "write_loop rs fm closing split pause n rest s1 ?d1 ?z1 = Inr (s', d', z')"
              using Cons.prems item \<open>strip raw \<noteq> []\<close> eg Some good
              by (simp add: Let_def nogap)
            from Cons.IH[OF this] have
              "d' = ?d1 + speech_duration (synthesized s1 rest)
                      + gap_duration fm pause (gapped split n (synthesized s1 rest))"
              "z' = ?z1 + speech_size (synthesized s1 rest)
                      + gap_size fm pause (gapped split n (synthesized s1 rest))"
              "same_setup s1 s'"
              by simp_all
            then show ?thesis
              using syn1 sums ss1 same_setup_trans[of s s1 s']
              by (simp add: speech_duration_def speech_size_def gap_duration_def gap_size_def
                  gapped_def nogap)
          qed
        qed
      qed
    qed
  qed
qed

text \<open>With equal rates nothing is resampled, and the loop completes for every pause that is
  not negative.\<close>

lemma write_loop_equal:
  assumes "target_sample_rate s = original_sample_rate s"
    and "\<forall>x y. 0 \<le> x \<longrightarrow> 0 \<le> y \<longrightarrow> 0 \<le> fm x y" and "0 \<le> pause"
  shows "\<exists>s' d' z'. write_loop rs fm closing split pause n items s d z = Inr (s', d', z')"
  using assms(1)
proof (induction items arbitrary: s d z)
  case Nil
  then show ?case by simp
next
  case (Cons item rest)
  obtain idx raw where item: "item = (idx, raw)" by (cases item)
  show ?case
  proof (cases "strip raw = []")
    case True
    then show ?thesis using Cons.IH[OF Cons.prems] item by simp
  next
    case False
    obtain s1 where eg: "engine_generate rs (closing idx) s (strip raw) =
        Inr (s1, snd (engine s (strip raw) (sid s) (speed s)))"
      using engine_generate_equal[OF Cons.prems] by blast
    have eq1: "target_sample_rate s1 = original_sample_rate s1"
      using engine_generate_Inr[OF eg] Cons.prems same_setup_equal_rates by blast
    show ?thesis
    proof (cases "snd (engine s (strip raw) (sid s) (speed s))")
      case None
      then show ?thesis using Cons.IH[OF eq1] item False eg by simp
    next
      case (Some audio)
      show ?thesis
      proof (cases "sample_rate audio = 0 \<or> samples audio = []")
        case True
        then show ?thesis using Cons.IH[OF eq1] item False eg Some by auto
      next
        case good: False
        show ?thesis
        proof (cases "split \<and> int idx < int n - 1")
          case gap: True
          let ?k = "py_int (fm (of_nat (sample_rate audio)) pause)"
          let ?noise = "replicate (nat ?k) (0 :: sample)"
          have k0: "\<not> ?k < 0"
            using py_int_nonneg[of "fm (of_nat (sample_rate audio)) pause"] assms(2,3) by simp
          obtain s2 r where op: "on_process rs s1 ?noise 1 = Inr (s2, r)"
            using on_process_equal[OF eq1] by blast
          have eq2: "target_sample_rate s2 = original_sample_rate s2"
            using on_process_Inr[OF op] eq1 same_setup_equal_rates by blast
          show ?thesis
            using Cons.IH[OF eq2] item \<open>strip raw \<noteq> []\<close> eg Some good gap k0 op
            by (simp add: Let_def)
        next
          case False
          then have nogap: "(split \<and> int idx < int n - 1) = False" by simp
          show ?thesis
            using Cons.IH[OF eq1] item \<open>strip raw \<noteq> []\<close> eg Some good
            by (simp add: Let_def nogap)
        qed
      qed
    qed
  qed
qed

lemma split_hello_world:
  "re_split splitter (str ''Hello. World.'') = [str ''Hello'', str '' World'', []]"
  by (simp add: str_def splitter_def)

lemma strip_hello: "strip (str ''Hello'') = str ''Hello''"
  by (simp add: strip_def str_def isspace_def)

lemma strip_world: "strip (str '' World'') = str ''World''"
  by (simp add: strip_def str_def isspace_def)

lemma strip_empty: "strip [] = []"
  by (simp add: strip_def)

lemma str_nonempty: "str ''Hello'' \<noteq> []" "str ''World'' \<noteq> []"
  by (simp_all add: str_def)





text \<open>The example streams.\<close>

lemma example_stream_open:
  "\<not> tts_is_closed example_tts_stream"
  "target_sample_rate example_tts_stream = original_sample_rate example_tts_stream"
  "tts_outbuf example_tts_stream = []"
  by (simp_all add: example_tts_stream_def TTSStream_def)

lemma vits_stream_open:
  "\<not> tts_is_closed vits_tts_stream"
  "target_sample_rate vits_tts_stream = original_sample_rate vits_tts_stream"
  "tts_outbuf vits_tts_stream = []"
  by (simp_all add: vits_tts_stream_def TTSStream_def)

lemma exact_mul_sign: "\<forall>x y. 0 \<le> x \<longrightarrow> 0 \<le> y \<longrightarrow> 0 \<le> exact_mul x y"
  by (simp add: exact_mul_def)

lemma example_engine_call:
  "engine example_tts_stream txt (sid example_tts_stream) (speed example_tts_stream) =
     ([([1 / 2, - 1 / 2], 1 / 2), ([1 / 4], 1)],
      Some \<lparr>samples = [1 / 2, - 1 / 2, 1 / 4], sample_rate = 24000\<rparr>)"
  by (simp add: example_tts_stream_def TTSStream_def example_tts_engine_def)


lemma example_frames:
  "map (\<lambda>(c, p). resampled rs example_tts_stream c) [([1 / 2, - 1 / 2], 1 / 2), ([1 / 4], 1)] =
     map Inr [[1 / 2, - 1 / 2], [1 / 4]]"
  "map (\<lambda>(c, p). resampled rs vits_tts_stream c) [([1 / 2, - 1 / 2], 1 / 2), ([1 / 4], 1)] =
     map Inr [[1 / 2, - 1 / 2], [1 / 4]]"
  by (simp_all add: resampled_equal example_stream_open vits_stream_open)

lemma example_gap:
  "gap_samples exact_mul (1 / 4) \<lparr>samples = xs, sample_rate = 24000\<rparr> = 6000"
  "gap_samples exact_mul (1 / 4) \<lparr>samples = xs, sample_rate = 22050\<rparr> = 5512"
proof -
  have fl: "\<lfloor>(11025 :: rat) / 2\<rfloor> = 5512" by (simp add: floor_eq_iff)
  show "gap_samples exact_mul (1 / 4) \<lparr>samples = xs, sample_rate = 24000\<rparr> = 6000"
    by (simp add: gap_samples_def exact_mul_def py_int_def)
  show "gap_samples exact_mul (1 / 4) \<lparr>samples = xs, sample_rate = 22050\<rparr> = 5512"
    by (simp add: gap_samples_def exact_mul_def py_int_def fl)
qed



lemma synthesized_hello:
  "synthesized example_tts_stream (enumerate 0 [str ''Hello'']) =
     [(0, \<lparr>samples = [1 / 2, - 1 / 2, 1 / 4], sample_rate = 24000\<rparr>)]"
  by (simp add: strip_hello str_nonempty example_tts_stream_def TTSStream_def
      example_tts_engine_def)

text \<open>One synthesized segment that gets a gap, on an open stream.\<close>

lemma write_loop_step_gap:
  assumes "\<not> tts_is_closed s" and "0 \<le> fm (of_nat (sample_rate a)) pause"
    and "strip raw \<noteq> []"
    and "engine s (strip raw) (sid s) (speed s) = (fs, Some a)"
    and "sample_rate a \<noteq> 0" "samples a \<noteq> []"
    and "int idx < int n - 1"
    and "map (\<lambda>(c, p). resampled rs s c) fs = map Inr ys"
    and "resampled rs s (replicate (gap_samples fm pause a) 0) = Inr g"
  shows "write_loop rs fm never_closing True pause n ((idx, raw) # rest) s d z =
         write_loop rs fm never_closing True pause n rest
           (s\<lparr>tts_outbuf := tts_outbuf s @ map (\<lambda>y. Some (pcm_result y)) ys @
                   [Some (pcm_result g)]\<rparr>)
           (d + of_nat (length (samples a) + gap_samples fm pause a) / of_nat (sample_rate a))
           (z + (length (samples a) + gap_samples fm pause a))"
proof -
  let ?s1 = "s\<lparr>tts_outbuf := tts_outbuf s @ map (\<lambda>y. Some (pcm_result y)) ys\<rparr>"
  let ?k = "py_int (fm (of_nat (sample_rate a)) pause)"
  have eg: "engine_generate rs (never_closing idx) s (strip raw) = Inr (?s1, Some a)"
    using engine_generate_open[OF assms(1,4,8)] by (simp add: never_closing_def)
  have k0: "\<not> ?k < 0" using py_int_nonneg[OF assms(2)] by simp
  have op: "on_process rs ?s1 (replicate (nat ?k) 0) 1 =
      Inr (?s1\<lparr>tts_outbuf := tts_outbuf ?s1 @ [Some (pcm_result g)]\<rparr>, 1)"
    using assms(1,9) by (intro on_process_open) (simp_all add: gap_samples_def)
  show ?thesis
    using assms(3,5,6,7) eg k0 op by (simp add: Let_def gap_samples_def)
qed

text \<open>A write of one unsplit text ends in the state that the engine call left.\<close>

lemma write_loop_single_nosplit:
  assumes "engine_generate rs (closing idx) s (strip raw) = Inr (s1, audio)" and "strip raw \<noteq> []"
  shows "\<exists>d z. write_loop rs fm closing False pause n [(idx, raw)] s 0 0 = Inr (s1, d, z)"
proof (cases audio)
  case None
  then show ?thesis using assms by simp
next
  case (Some a)
  then show ?thesis using assms by (cases "sample_rate a = 0 \<or> samples a = []") simp_all
qed

subsection \<open>The queue of a split write\<close>

text \<open>
  Claim C1, at its input: on an open stream whose engine synthesizes "Hello" and
  "World", \<^verbatim>\<open>write("Hello. World.", split=True)\<close> enqueues the frames of "Hello", a
  silence chunk, the frames of "World", a second silence chunk, and then one final
  result with \<^verbatim>\<open>finished\<close> set. The second silence chunk follows the last segment:
  \<^verbatim>\<open>re.split\<close> returns a third, empty piece after the final full stop, so "World" is
  not the last element of \<^verbatim>\<open>texts\<close> and \<^verbatim>\<open>idx < len(texts) - 1\<close> holds for it.
  The chunks \<open>ys1\<close>, \<open>g1\<close>, \<open>ys2\<close> and \<open>g2\<close> are what the resampling step makes of the
  frames and of the two gaps (the frames and gaps themselves when the rates are equal).
\<close>

theorem hello_world_queue:
  assumes "\<not> tts_is_closed s"
    and "\<forall>x y. 0 \<le> x \<longrightarrow> 0 \<le> y \<longrightarrow> 0 \<le> fm x y" and "0 \<le> pause"
    and "engine s (str ''Hello'') (sid s) (speed s) = (fs1, Some a1)"
    and "sample_rate a1 \<noteq> 0" and "samples a1 \<noteq> []"
    and "engine s (str ''World'') (sid s) (speed s) = (fs2, Some a2)"
    and "sample_rate a2 \<noteq> 0" and "samples a2 \<noteq> []"
    and "map (\<lambda>(c, p). resampled rs s c) fs1 = map Inr ys1"
    and "resampled rs s (replicate (gap_samples fm pause a1) 0) = Inr g1"
    and "map (\<lambda>(c, p). resampled rs s c) fs2 = map Inr ys2"
    and "resampled rs s (replicate (gap_samples fm pause a2) 0) = Inr g2"
  shows "tts_write rs fm never_closing t_start t_end s (str ''Hello. World.'') True pause =
     Inr (s\<lparr>tts_outbuf := tts_outbuf s @
            map (\<lambda>y. Some (pcm_result y)) ys1 @ [Some (pcm_result g1)] @
            map (\<lambda>y. Some (pcm_result y)) ys2 @ [Some (pcm_result g2)] @
            [Some \<lparr>pcm_bytes = None, finished = True, progress = 1, elapsed = t_end - t_start,
                    audio_duration =
                      of_nat (length (samples a1) + gap_samples fm pause a1) / of_nat (sample_rate a1) +
                      of_nat (length (samples a2) + gap_samples fm pause a2) / of_nat (sample_rate a2),
                    audio_size = 0\<rparr>]\<rparr>)"
proof -
  let ?q1 = "tts_outbuf s @ map (\<lambda>y. Some (pcm_result y)) ys1 @ [Some (pcm_result g1)]"
  let ?s1 = "s\<lparr>tts_outbuf := ?q1\<rparr>"
  let ?d1 = "0 + of_nat (length (samples a1) + gap_samples fm pause a1) / of_nat (sample_rate a1) :: rat"
  let ?z1 = "0 + (length (samples a1) + gap_samples fm pause a1)"
  let ?s2 = "?s1\<lparr>tts_outbuf := tts_outbuf ?s1 @ map (\<lambda>y. Some (pcm_result y)) ys2 @
                   [Some (pcm_result g2)]\<rparr>"
  let ?d2 = "?d1 + of_nat (length (samples a2) + gap_samples fm pause a2) / of_nat (sample_rate a2)"
  let ?z2 = "?z1 + (length (samples a2) + gap_samples fm pause a2)"
  have p1: "0 \<le> fm (of_nat (sample_rate a1)) pause" and p2: "0 \<le> fm (of_nat (sample_rate a2)) pause"
    using assms(2,3) by simp_all
  have st1: "write_loop rs fm never_closing True pause 3
               [(0, str ''Hello''), (1, str '' World''), (2, [])] s 0 0 =
             write_loop rs fm never_closing True pause 3 [(1, str '' World''), (2, [])] ?s1 ?d1 ?z1"
    using assms p1 by (intro write_loop_step_gap) (simp_all add: strip_hello str_nonempty)
  have st2: "write_loop rs fm never_closing True pause 3 [(1, str '' World''), (2, [])] ?s1 ?d1 ?z1 =
             write_loop rs fm never_closing True pause 3 [(2, [])] ?s2 ?d2 ?z2"
    using assms p2 by (intro write_loop_step_gap) (simp_all add: strip_world str_nonempty)
  have st3: "write_loop rs fm never_closing True pause 3 [(2, [])] ?s2 ?d2 ?z2 = Inr (?s2, ?d2, ?z2)"
    by (simp add: strip_empty)
  have en: "enumerate 0 [str ''Hello'', str '' World'', []] =
            [(0, str ''Hello''), (1, str '' World''), (2, [])]"
    by simp
  have len: "length [str ''Hello'', str '' World'', []] = 3"
    by simp
  have wl: "write_loop rs fm never_closing True pause
        (length (re_split splitter (str ''Hello. World.'')))
        (enumerate 0 (re_split splitter (str ''Hello. World.''))) s 0 0 = Inr (?s2, ?d2, ?z2)"
    by (simp only: split_hello_world en len st1 st2 st3)
  show ?thesis
    unfolding tts_write_def using wl by (simp add: TTSResult_def)
qed

text \<open>The theorem at the example engine with a pause of 0.25 seconds: each gap has 6000
  samples.\<close>

theorem hello_world_queue_witness:
  "\<not> tts_is_closed example_tts_stream \<and>
   0 \<le> exact_mul 24000 (1 / 4) \<and> (0 :: rat) \<le> 1 / 4 \<and>
   engine example_tts_stream (str ''Hello'') (sid example_tts_stream) (speed example_tts_stream) =
     ([([1 / 2, - 1 / 2], 1 / 2), ([1 / 4], 1)],
      Some \<lparr>samples = [1 / 2, - 1 / 2, 1 / 4], sample_rate = 24000\<rparr>) \<and>
   map (\<lambda>(c, p). resampled zero_resample example_tts_stream c)
       [([1 / 2, - 1 / 2], 1 / 2), ([1 / 4], 1)] = map Inr [[1 / 2, - 1 / 2], [1 / 4]] \<and>
   resampled zero_resample example_tts_stream (replicate 6000 0) = Inr (replicate 6000 0) \<and>
   tts_write zero_resample exact_mul never_closing 0 1 example_tts_stream (str ''Hello. World.'')
       True (1 / 4) =
     Inr (example_tts_stream\<lparr>tts_outbuf :=
       [Some (pcm_result [1 / 2, - 1 / 2]), Some (pcm_result [1 / 4]),
        Some (pcm_result (replicate 6000 0)),
        Some (pcm_result [1 / 2, - 1 / 2]), Some (pcm_result [1 / 4]),
        Some (pcm_result (replicate 6000 0)),
        Some \<lparr>pcm_bytes = None, finished = True, progress = 1, elapsed = 1,
               audio_duration = 2001 / 4000, audio_size = 0\<rparr>]\<rparr>)"
proof -
  let ?a = "\<lparr>samples = [1 / 2, - 1 / 2, 1 / 4 :: sample], sample_rate = 24000\<rparr>"
  let ?fs = "[([1 / 2, - 1 / 2 :: sample], 1 / 2 :: rat), ([1 / 4], 1)]"
  have g: "resampled zero_resample example_tts_stream (replicate (gap_samples exact_mul (1 / 4) ?a) 0)
             = Inr (replicate 6000 0)"
    by (simp add: example_gap resampled_equal example_stream_open)
  have g': "resampled zero_resample example_tts_stream (replicate 6000 0) = Inr (replicate 6000 0)"
    by (simp add: resampled_equal example_stream_open)
  have p: "(0 :: rat) \<le> 1 / 4" by simp
  have a: "sample_rate ?a \<noteq> 0" "samples ?a \<noteq> []" by simp_all
  note t = hello_world_queue[OF example_stream_open(1) exact_mul_sign p
      example_engine_call a example_engine_call a example_frames(1) g example_frames(1) g,
      of 0 1]
  show ?thesis
    using t example_frames(1)[of zero_resample] g'
    by (simp add: example_stream_open example_engine_call example_gap exact_mul_def)
qed

subsection \<open>The resampling step\<close>

text \<open>
  Claim C2, as the code has it: when the rates differ, \<^verbatim>\<open>on_process\<close> and
  \<^verbatim>\<open>generate\<close> ask the resampler for \<open>len(x) * r2 / r1\<close> samples, truncated to an
  integer (r1 the source rate, not 0; r2 the target rate). For a non-empty \<open>x\<close> and a
  length that is not 0 the output has that length, given that
  \<^verbatim>\<open>scipy.signal.resample\<close> then returns as many samples as it is asked for; an error
  of the resampler leaves \<^verbatim>\<open>on_process\<close> or \<^verbatim>\<open>generate\<close> as that error; and when
  the rates are equal the samples are passed on unchanged.
\<close>

theorem resample_length:
  assumes "\<forall>x num. x \<noteq> [] \<longrightarrow> num \<noteq> 0 \<longrightarrow> (\<exists>y. rs x num = Inr y \<and> length y = num)"
  shows
    "(\<not> tts_is_closed s \<and> original_sample_rate s \<noteq> 0 \<and>
      target_sample_rate s \<noteq> original_sample_rate s \<and> chunk \<noteq> [] \<and>
      length chunk * target_sample_rate s div original_sample_rate s \<noteq> 0 \<longrightarrow>
        (\<exists>y. length y = length chunk * target_sample_rate s div original_sample_rate s \<and>
             on_process rs s chunk prog =
               Inr (s\<lparr>tts_outbuf := tts_outbuf s @
                      [Some (TTSResult (Some (tobytes (map to_int16 y))) False)]\<rparr>, 1))) \<and>
     (\<not> tts_is_closed s \<and> original_sample_rate s \<noteq> 0 \<and>
      target_sample_rate s \<noteq> original_sample_rate s \<and>
      rs chunk (length chunk * target_sample_rate s div original_sample_rate s) = Inl e \<longrightarrow>
        on_process rs s chunk prog = Inl e) \<and>
     (\<not> tts_is_closed s \<and> target_sample_rate s = original_sample_rate s \<longrightarrow>
        on_process rs s chunk prog =
          Inr (s\<lparr>tts_outbuf := tts_outbuf s @
                 [Some (TTSResult (Some (tobytes (map to_int16 chunk))) False)]\<rparr>, 1)) \<and>
     (snd (engine s txt (sid s) (speed s)) = Some audio \<and> sample_rate audio \<noteq> 0 \<and>
      target_sample_rate s \<noteq> sample_rate audio \<and> samples audio \<noteq> [] \<and>
      length (samples audio) * target_sample_rate s div sample_rate audio \<noteq> 0 \<longrightarrow>
        (\<exists>out. generate rs s txt = Inr out \<and> sample_rate out = target_sample_rate s \<and>
           length (samples out) =
             length (samples audio) * target_sample_rate s div sample_rate audio)) \<and>
     (snd (engine s txt (sid s) (speed s)) = Some audio \<and> sample_rate audio \<noteq> 0 \<and>
      target_sample_rate s \<noteq> sample_rate audio \<and>
      rs (samples audio) (length (samples audio) * target_sample_rate s div sample_rate audio)
        = Inl e \<longrightarrow>
        generate rs s txt = Inl e) \<and>
     (snd (engine s txt (sid s) (speed s)) = Some audio \<and> sample_rate audio \<noteq> 0 \<and>
      target_sample_rate s = sample_rate audio \<longrightarrow>
        generate rs s txt = Inr audio)"
proof (intro conjI impI)
  assume h: "\<not> tts_is_closed s \<and> original_sample_rate s \<noteq> 0 \<and>
      target_sample_rate s \<noteq> original_sample_rate s \<and> chunk \<noteq> [] \<and>
      length chunk * target_sample_rate s div original_sample_rate s \<noteq> 0"
  let ?n = "length chunk * target_sample_rate s div original_sample_rate s"
  obtain y where y: "rs chunk ?n = Inr y" "length y = ?n"
    using assms h by blast
  have "resampled rs s chunk = Inr y" using h y by (simp add: resampled_def)
  then have "on_process rs s chunk prog =
      Inr (s\<lparr>tts_outbuf := tts_outbuf s @ [Some (pcm_result y)]\<rparr>, 1)"
    using h by (intro on_process_open) simp_all
  then show "\<exists>y. length y = ?n \<and>
             on_process rs s chunk prog =
               Inr (s\<lparr>tts_outbuf := tts_outbuf s @
                      [Some (TTSResult (Some (tobytes (map to_int16 y))) False)]\<rparr>, 1)"
    using y(2) by (intro exI[of _ y]) (simp add: pcm_result_def)
next
  assume "\<not> tts_is_closed s \<and> original_sample_rate s \<noteq> 0 \<and>
      target_sample_rate s \<noteq> original_sample_rate s \<and>
      rs chunk (length chunk * target_sample_rate s div original_sample_rate s) = Inl e"
  then show "on_process rs s chunk prog = Inl e"
    by (intro on_process_error) (simp_all add: resampled_def)
next
  assume "\<not> tts_is_closed s \<and> target_sample_rate s = original_sample_rate s"
  then show "on_process rs s chunk prog =
          Inr (s\<lparr>tts_outbuf := tts_outbuf s @
                 [Some (TTSResult (Some (tobytes (map to_int16 chunk))) False)]\<rparr>, 1)"
    using on_process_open[of s rs chunk chunk prog] by (simp add: resampled_equal pcm_result_def)
next
  assume h: "snd (engine s txt (sid s) (speed s)) = Some audio \<and> sample_rate audio \<noteq> 0 \<and>
      target_sample_rate s \<noteq> sample_rate audio \<and> samples audio \<noteq> [] \<and>
      length (samples audio) * target_sample_rate s div sample_rate audio \<noteq> 0"
  let ?n = "length (samples audio) * target_sample_rate s div sample_rate audio"
  obtain y where y: "rs (samples audio) ?n = Inr y" "length y = ?n"
    using assms h by blast
  show "\<exists>out. generate rs s txt = Inr out \<and> sample_rate out = target_sample_rate s \<and>
           length (samples out) = ?n"
    using h y by (simp add: generate_def)
next
  assume "snd (engine s txt (sid s) (speed s)) = Some audio \<and> sample_rate audio \<noteq> 0 \<and>
      target_sample_rate s \<noteq> sample_rate audio \<and>
      rs (samples audio) (length (samples audio) * target_sample_rate s div sample_rate audio)
        = Inl e"
  then show "generate rs s txt = Inl e" by (simp add: generate_def)
next
  assume "snd (engine s txt (sid s) (speed s)) = Some audio \<and> sample_rate audio \<noteq> 0 \<and>
      target_sample_rate s = sample_rate audio"
  then show "generate rs s txt = Inr audio" by (simp add: generate_def)
qed

text \<open>The theorem at six samples from 24000 Hz to 16000 Hz, at one sample (for which the
  stand-in, like the library, raises), and at the three samples of the example engine.\<close>

theorem resample_length_witness:
  "zero_resample [0, 0, 0, 0, 0, 0] 4 = Inr (replicate 4 0) \<and>
   \<not> tts_is_closed (TTSStream example_tts_engine 0 1 16000 24000) \<and>
   length [0, 0, 0, 0, 0, 0 :: sample] * 16000 div 24000 = 4 \<and>
   (\<exists>y. length y = 4 \<and>
      on_process zero_resample (TTSStream example_tts_engine 0 1 16000 24000)
          [0, 0, 0, 0, 0, 0] 1 =
        Inr ((TTSStream example_tts_engine 0 1 16000 24000)
               \<lparr>tts_outbuf := [Some (TTSResult (Some (tobytes (map to_int16 y))) False)]\<rparr>, 1)) \<and>
   zero_resample [0] (length [0 :: sample] * 16000 div 24000) = Inl ValueError \<and>
   on_process zero_resample (TTSStream example_tts_engine 0 1 16000 24000) [0] 1 = Inl ValueError \<and>
   (\<exists>out. generate zero_resample (TTSStream example_tts_engine 0 1 16000 24000) (str ''Hello'')
            = Inr out \<and> sample_rate out = 16000 \<and> length (samples out) = 2)"
proof -
  have h: "\<forall>x num. x \<noteq> [] \<longrightarrow> num \<noteq> 0 \<longrightarrow> (\<exists>y. zero_resample x num = Inr y \<and> length y = num)"
    by (simp add: zero_resample_def)
  have z: "zero_resample [0] 0 = Inl ValueError"
    "zero_resample [0, 0, 0, 0, 0, 0] 4 = Inr (replicate 4 0)"
    by (simp_all add: zero_resample_def)
  show ?thesis
    using
      resample_length[OF h, of "TTSStream example_tts_engine 0 1 16000 24000"
        "[0, 0, 0, 0, 0, 0]" 1 ValueError "str ''Hello''"
        "\<lparr>samples = [1 / 2, - 1 / 2, 1 / 4], sample_rate = 24000\<rparr>"]
      resample_length[OF h, of "TTSStream example_tts_engine 0 1 16000 24000"
        "[0]" 1 ValueError "str ''Hello''"
        "\<lparr>samples = [1 / 2, - 1 / 2, 1 / 4], sample_rate = 24000\<rparr>"]
    by (simp add: TTSStream_def example_tts_engine_def z)
qed

text \<open>
  The claim as stated (the length is \<open>round(len(x) * r2 / r1)\<close>) fails: four samples
  from 24000 Hz to 16000 Hz are resampled to 2 samples, and the rounding of 8/3 is 3.
\<close>

theorem resample_length_counterexample:
  "on_process zero_resample (TTSStream example_tts_engine 0 1 16000 24000) [0, 0, 0, 0] 1 =
     Inr ((TTSStream example_tts_engine 0 1 16000 24000)
            \<lparr>tts_outbuf := [Some (TTSResult (Some (tobytes (map to_int16 (replicate 2 0)))) False)]\<rparr>,
          1) \<and>
   zero_resample [0, 0, 0, 0] 2 = Inr (replicate 2 0) \<and>
   length (replicate 2 (0 :: sample)) = 2 \<and>
   py_round (of_nat (length [0, 0, 0, 0 :: sample]) * 16000 / 24000) = 3"
proof -
  have fl: "\<lfloor>(8 :: rat) / 3\<rfloor> = 2" by (simp add: floor_eq_iff)
  show ?thesis
    by (simp add: on_process_def TTSStream_def zero_resample_def py_round_def Let_def fl)
qed

subsection \<open>The fields of the final result\<close>

text \<open>
  Claim C6, at the code: the final result that \<^verbatim>\<open>write\<close> enqueues has no payload, has
  \<^verbatim>\<open>finished\<close> set, the elapsed time and the accumulated audio duration, but its
  \<^verbatim>\<open>audio_size\<close> is 0 whatever the loop has counted: the local variable
  \<^verbatim>\<open>audio_size\<close> is never assigned to the result. This holds for every write whose
  loop completes, and the loop completes whenever the rates are equal and the pause is
  not negative.
\<close>

theorem summary_fields:
  assumes "texts = (if split then re_split splitter txt else [txt])"
    and "segs = synthesized s (enumerate 0 texts)"
  shows
    "(write_loop rs fm closing split pause (length texts) (enumerate 0 texts) s 0 0 =
        Inr (s1, dur, asize) \<longrightarrow>
        asize = speech_size segs + gap_size fm pause (gapped split (length texts) segs) \<and>
        tts_write rs fm closing t_start t_end s txt split pause =
          Inr (s1\<lparr>tts_outbuf := tts_outbuf s1 @
                 [Some \<lparr>pcm_bytes = None, finished = True, progress = 1,
                         elapsed = t_end - t_start, audio_duration = dur, audio_size = 0\<rparr>]\<rparr>)) \<and>
     (target_sample_rate s = original_sample_rate s \<and>
      (\<forall>x y. 0 \<le> x \<longrightarrow> 0 \<le> y \<longrightarrow> 0 \<le> fm x y) \<and> 0 \<le> pause \<longrightarrow>
        (\<exists>s' dur' asize'.
           write_loop rs fm closing split pause (length texts) (enumerate 0 texts) s 0 0 =
             Inr (s', dur', asize')))"
proof (intro conjI impI)
  assume wl: "write_loop rs fm closing split pause (length texts) (enumerate 0 texts) s 0 0 =
        Inr (s1, dur, asize)"
  show "asize = speech_size segs + gap_size fm pause (gapped split (length texts) segs)"
    using write_loop_accounting[OF wl] assms(2) by simp
  show "tts_write rs fm closing t_start t_end s txt split pause =
          Inr (s1\<lparr>tts_outbuf := tts_outbuf s1 @
                 [Some \<lparr>pcm_bytes = None, finished = True, progress = 1,
                         elapsed = t_end - t_start, audio_duration = dur, audio_size = 0\<rparr>]\<rparr>)"
    using wl assms(1) by (simp add: tts_write_def Let_def TTSResult_def)
next
  assume "target_sample_rate s = original_sample_rate s \<and>
      (\<forall>x y. 0 \<le> x \<longrightarrow> 0 \<le> y \<longrightarrow> 0 \<le> fm x y) \<and> 0 \<le> pause"
  then show "\<exists>s' dur' asize'.
           write_loop rs fm closing split pause (length texts) (enumerate 0 texts) s 0 0 =
             Inr (s', dur', asize')"
    by (intro write_loop_equal) simp_all
qed

text \<open>The theorem at \<^verbatim>\<open>write("Hello", split=False)\<close>: the loop counts 3 samples, the
  summary reports 0.\<close>

theorem summary_fields_witness:
  "write_loop zero_resample exact_mul never_closing False (1 / 4) 1 (enumerate 0 [str ''Hello''])
       example_tts_stream 0 0 =
     Inr (example_tts_stream
            \<lparr>tts_outbuf := [Some (pcm_result [1 / 2, - 1 / 2]), Some (pcm_result [1 / 4])]\<rparr>,
          1 / 8000, 3) \<and>
   target_sample_rate example_tts_stream = original_sample_rate example_tts_stream \<and>
   0 \<le> exact_mul 24000 (1 / 4) \<and> (0 :: rat) \<le> 1 / 4 \<and>
   tts_write zero_resample exact_mul never_closing 0 1 example_tts_stream (str ''Hello'') False
       (1 / 4) =
     Inr (example_tts_stream
            \<lparr>tts_outbuf := [Some (pcm_result [1 / 2, - 1 / 2]), Some (pcm_result [1 / 4]),
               Some \<lparr>pcm_bytes = None, finished = True, progress = 1, elapsed = 1,
                      audio_duration = 1 / 8000, audio_size = 0\<rparr>]\<rparr>)"
proof -
  let ?a = "\<lparr>samples = [1 / 2, - 1 / 2, 1 / 4 :: sample], sample_rate = 24000\<rparr>"
  let ?s1 = "example_tts_stream
            \<lparr>tts_outbuf := [Some (pcm_result [1 / 2, - 1 / 2]), Some (pcm_result [1 / 4])]\<rparr>"
  have h1: "[str ''Hello''] = (if False then re_split splitter (str ''Hello'') else [str ''Hello''])"
    by simp
  have h2: "[(0, ?a)] = synthesized example_tts_stream (enumerate 0 [str ''Hello''])"
    by (simp only: synthesized_hello)
  have eg: "engine_generate zero_resample (never_closing 0) example_tts_stream (str ''Hello'') =
              Inr (?s1, Some ?a)"
    using engine_generate_open[where rs = zero_resample and s = example_tts_stream
        and ?txt = "str ''Hello''", OF example_stream_open(1) example_engine_call example_frames(1)]
    by (simp add: never_closing_def example_stream_open)
  have wl: "write_loop zero_resample exact_mul never_closing False (1 / 4)
       (length [str ''Hello'']) (enumerate 0 [str ''Hello'']) example_tts_stream 0 0 =
     Inr (?s1, 1 / 8000, 3)"
    using eg by (simp add: strip_hello str_nonempty)
  note t = summary_fields[OF h1 h2, of zero_resample exact_mul never_closing "1 / 4"
      ?s1 "1 / 8000" 3 0 1]
  show ?thesis
    using t wl by (simp add: example_stream_open exact_mul_def)
qed

subsection \<open>A close during synthesis\<close>

text \<open>
  Claim C9, at the code: when \<^verbatim>\<open>close()\<close> runs while the engine call of a write is in
  flight, after \<open>k\<close> frames, the frames offered later are dropped by \<^verbatim>\<open>on_process\<close>,
  but \<^verbatim>\<open>write\<close> still enqueues its final result, which lands in the queue behind the
  end-of-stream sentinel. The chunks \<open>ys\<close> are what the resampling step made of the first
  \<open>k\<close> frames.
\<close>

theorem summary_after_close:
  assumes "\<not> tts_is_closed s"
    and "strip txt \<noteq> []"
    and "engine s (strip txt) (sid s) (speed s) = (frames, audio)"
    and "map (\<lambda>(c, p). resampled rs s c) (take k frames) = map Inr ys"
  shows "\<exists>r. tts_write rs fm (\<lambda>idx. Some k) t_start t_end s txt False pause =
            Inr (s\<lparr>tts_is_closed := True,
                   tts_outbuf := tts_outbuf s @
                     map (\<lambda>y. Some (pcm_result y)) ys @ [None, Some r]\<rparr>) \<and>
          finished r \<and> pcm_bytes r = None"
proof -
  let ?s1 = "s\<lparr>tts_outbuf := tts_outbuf s @ map (\<lambda>y. Some (pcm_result y)) ys\<rparr>"
  have r1: "run_callback rs s (take k frames) = Inr ?s1"
    using assms(1,4) by (rule run_callback_open)
  have r2: "run_callback rs (tts_close ?s1) (drop k frames) = Inr (tts_close ?s1)"
    by (rule run_callback_closed) (simp add: tts_close_def)
  have eg: "engine_generate rs (Some k) s (strip txt) = Inr (tts_close ?s1, audio)"
    using assms(3) r1 r2 by (simp add: engine_generate_def)
  obtain d z where wl: "write_loop rs fm (\<lambda>idx. Some k) False pause 1 [(0, txt)] s 0 0 =
      Inr (tts_close ?s1, d, z)"
    using write_loop_single_nosplit[where closing = "\<lambda>idx. Some k" and idx = 0, OF eg assms(2)]
    by blast
  let ?r = "\<lparr>pcm_bytes = None, finished = True, progress = 1, elapsed = t_end - t_start,
             audio_duration = d, audio_size = 0\<rparr>"
  have "tts_write rs fm (\<lambda>idx. Some k) t_start t_end s txt False pause =
            Inr (s\<lparr>tts_is_closed := True,
                   tts_outbuf := tts_outbuf s @
                     map (\<lambda>y. Some (pcm_result y)) ys @ [None, Some ?r]\<rparr>)"
    using wl by (simp add: tts_write_def TTSResult_def tts_close_def del: write_loop.simps)
  then show ?thesis by (intro exI[of _ ?r]) simp
qed

text \<open>The theorem at \<^verbatim>\<open>write("Hello", split=False)\<close> with \<^verbatim>\<open>close()\<close> after the
  first of two frames.\<close>

theorem summary_after_close_witness:
  "\<not> tts_is_closed example_tts_stream \<and> strip (str ''Hello'') \<noteq> [] \<and>
   map (\<lambda>(c, p). resampled zero_resample example_tts_stream c)
       (take 1 [([1 / 2, - 1 / 2], 1 / 2), ([1 / 4], 1)]) = map Inr [[1 / 2, - 1 / 2]] \<and>
   (\<exists>r. tts_write zero_resample exact_mul (\<lambda>idx. Some 1) 0 1 example_tts_stream (str ''Hello'')
           False (1 / 4) =
          Inr (example_tts_stream\<lparr>tts_is_closed := True,
                 tts_outbuf := [Some (pcm_result [1 / 2, - 1 / 2]), None, Some r]\<rparr>) \<and>
        finished r \<and> pcm_bytes r = None)"
proof -
  have h2: "strip (str ''Hello'') \<noteq> []" by (simp add: strip_hello str_nonempty)
  have h4: "map (\<lambda>(c, p). resampled zero_resample example_tts_stream c)
       (take 1 [([1 / 2, - 1 / 2], 1 / 2), ([1 / 4], 1)]) = map Inr [[1 / 2, - 1 / 2]]"
    by (simp add: resampled_equal example_stream_open)
  show ?thesis
    using h2 h4
      summary_after_close[OF example_stream_open(1) h2 example_engine_call h4,
        of exact_mul 0 1 "1 / 4"]
    by (simp add: example_stream_open)
qed

subsection \<open>Gaps in the accounting\<close>




section \<open>Properties of the engine caches\<close>

lemma get_tts_engine_inv:
  "tts_inv m \<Longrightarrow> get_tts_engine v m name = Inr (r, m') \<Longrightarrow> tts_inv m'"
  by (auto simp: get_tts_engine_def tts_inv_def Let_def split: option.splits if_splits)

lemma tts_calls_inv: "tts_inv m \<Longrightarrow> tts_inv (tts_calls m calls)"
proof (induction calls arbitrary: m)
  case Nil
  then show ?case by simp
next
  case (Cons c calls)
  obtain v name where c: "c = (v, name)" by (cases c)
  show ?case
  proof (cases "get_tts_engine v m name")
    case (Inl e)
    then show ?thesis using Cons c by simp
  next
    case (Inr x)
    obtain r m' where x: "x = (r, m')" by (cases x)
    have "tts_inv m'" using get_tts_engine_inv[OF Cons.prems] Inr x by blast
    then show ?thesis using Cons.IH Inr x c by simp
  qed
qed

lemma load_speaker_engine_inv:
  "speaker_inv m \<Longrightarrow> load_speaker_engine f m name = Inr (r, m') \<Longrightarrow> speaker_inv m'"
  by (auto simp: load_speaker_engine_def speaker_inv_def Let_def split: option.splits if_splits)

lemma speaker_calls_inv: "speaker_inv m \<Longrightarrow> speaker_inv (speaker_calls m calls)"
proof (induction calls arbitrary: m)
  case Nil
  then show ?case by simp
next
  case (Cons c calls)
  obtain v name where c: "c = (v, name)" by (cases c)
  show ?case
  proof (cases "load_speaker_engine v m name")
    case (Inl e)
    then show ?thesis using Cons c by simp
  next
    case (Inr x)
    obtain r m' where x: "x = (r, m')" by (cases x)
    have "speaker_inv m'" using load_speaker_engine_inv[OF Cons.prems] Inr x by blast
    then show ?thesis using Cons.IH Inr x c by simp
  qed
qed

lemma distinct_count_le_1: "distinct xs \<Longrightarrow> count_list xs x \<le> 1"
  by (induction xs) (auto simp: count_list_0_iff)

lemma get_tts_engine_again:
  assumes "get_tts_engine v m name = Inr ((e, rate), m')"
  shows "get_tts_engine v' m' name = Inr ((e, rate), m') \<and>
         (tts_constructed m' = tts_constructed m \<or> tts_constructed m' = tts_constructed m @ [name])"
  using assms
  by (auto simp: get_tts_engine_def Let_def split: option.splits if_splits)

lemma load_speaker_engine_again:
  assumes "load_speaker_engine f m name = Inr (e, m')"
  shows "load_speaker_engine f' m' name = Inr (e, m') \<and>
         (speaker_constructed m' = speaker_constructed m \<or>
          speaker_constructed m' = speaker_constructed m @ [name])"
  using assms
  by (auto simp: load_speaker_engine_def Let_def split: option.splits if_splits)

text \<open>
  Claim C8: when a call of \<^verbatim>\<open>get_tts_engine\<close> (of \<^verbatim>\<open>load_speaker_engine\<close>) for a
  model has returned, having constructed at most one engine, a further call for the same
  model returns the same engine instance and constructs nothing; and in every schedule
  of calls that starts with empty caches, each model is constructed at most once.
\<close>

theorem construct_once:
  "(get_tts_engine v m name = Inr ((e, rate), m') \<longrightarrow>
      get_tts_engine v' m' name = Inr ((e, rate), m') \<and>
      (tts_constructed m' = tts_constructed m \<or> tts_constructed m' = tts_constructed m @ [name])) \<and>
   (load_speaker_engine f sm name = Inr (se, sm') \<longrightarrow>
      load_speaker_engine f' sm' name = Inr (se, sm') \<and>
      (speaker_constructed sm' = speaker_constructed sm \<or>
       speaker_constructed sm' = speaker_constructed sm @ [name])) \<and>
   count_list (tts_constructed
       (tts_calls \<lparr>tts_engines = Map.empty, tts_constructed = []\<rparr> calls)) name \<le> 1 \<and>
   count_list (speaker_constructed
       (speaker_calls \<lparr>speaker_engines = Map.empty, speaker_constructed = []\<rparr> scalls)) name \<le> 1"
proof (intro conjI impI)
  assume "get_tts_engine v m name = Inr ((e, rate), m')"
  then show "get_tts_engine v' m' name = Inr ((e, rate), m')"
    and "tts_constructed m' = tts_constructed m \<or> tts_constructed m' = tts_constructed m @ [name]"
    using get_tts_engine_again by blast+
next
  assume "load_speaker_engine f sm name = Inr (se, sm')"
  then show "load_speaker_engine f' sm' name = Inr (se, sm')"
    and "speaker_constructed sm' = speaker_constructed sm \<or>
       speaker_constructed sm' = speaker_constructed sm @ [name]"
    using load_speaker_engine_again by blast+
next
  have "tts_inv \<lparr>tts_engines = Map.empty, tts_constructed = []\<rparr>" by (simp add: tts_inv_def)
  then have "tts_inv (tts_calls \<lparr>tts_engines = Map.empty, tts_constructed = []\<rparr> calls)"
    by (rule tts_calls_inv)
  then show "count_list (tts_constructed
       (tts_calls \<lparr>tts_engines = Map.empty, tts_constructed = []\<rparr> calls)) name \<le> 1"
    by (intro distinct_count_le_1) (simp add: tts_inv_def)
next
  have "speaker_inv \<lparr>speaker_engines = Map.empty, speaker_constructed = []\<rparr>"
    by (simp add: speaker_inv_def)
  then have "speaker_inv (speaker_calls \<lparr>speaker_engines = Map.empty, speaker_constructed = []\<rparr> scalls)"
    by (rule speaker_calls_inv)
  then show "count_list (speaker_constructed
       (speaker_calls \<lparr>speaker_engines = Map.empty, speaker_constructed = []\<rparr> scalls)) name \<le> 1"
    by (intro distinct_count_le_1) (simp add: speaker_inv_def)
qed

text \<open>The theorem at two calls for the Kokoro model and two for NeMo SpeakerNet, from
  empty caches.\<close>

theorem construct_once_witness:
  "get_tts_engine (\<lambda>name. True) \<lparr>tts_engines = Map.empty, tts_constructed = []\<rparr>
     ''kokoro-multi-lang-v1_0'' =
     Inr ((0, 24000),
          \<lparr>tts_engines = [''kokoro-multi-lang-v1_0'' \<mapsto> 0],
           tts_constructed = [''kokoro-multi-lang-v1_0'']\<rparr>) \<and>
   get_tts_engine (\<lambda>name. True)
     \<lparr>tts_engines = [''kokoro-multi-lang-v1_0'' \<mapsto> 0],
      tts_constructed = [''kokoro-multi-lang-v1_0'']\<rparr> ''kokoro-multi-lang-v1_0'' =
     Inr ((0, 24000),
          \<lparr>tts_engines = [''kokoro-multi-lang-v1_0'' \<mapsto> 0],
           tts_constructed = [''kokoro-multi-lang-v1_0'']\<rparr>) \<and>
   load_speaker_engine (\<lambda>name. True) \<lparr>speaker_engines = Map.empty, speaker_constructed = []\<rparr>
     ''nemo-speakernet'' =
     Inr (0, \<lparr>speaker_engines = [''nemo-speakernet'' \<mapsto> 0],
              speaker_constructed = [''nemo-speakernet'']\<rparr>) \<and>
   load_speaker_engine (\<lambda>name. True)
     \<lparr>speaker_engines = [''nemo-speakernet'' \<mapsto> 0],
      speaker_constructed = [''nemo-speakernet'']\<rparr> ''nemo-speakernet'' =
     Inr (0, \<lparr>speaker_engines = [''nemo-speakernet'' \<mapsto> 0],
              speaker_constructed = [''nemo-speakernet'']\<rparr>)"
proof -
  have t: "get_tts_engine (\<lambda>name. True) \<lparr>tts_engines = Map.empty, tts_constructed = []\<rparr>
     ''kokoro-multi-lang-v1_0'' =
     Inr ((0, 24000),
          \<lparr>tts_engines = [''kokoro-multi-lang-v1_0'' \<mapsto> 0],
           tts_constructed = [''kokoro-multi-lang-v1_0'']\<rparr>)"
    by (simp add: get_tts_engine_def tts_configs_def)
  have sp: "load_speaker_engine (\<lambda>name. True) \<lparr>speaker_engines = Map.empty, speaker_constructed = []\<rparr>
     ''nemo-speakernet'' =
     Inr (0, \<lparr>speaker_engines = [''nemo-speakernet'' \<mapsto> 0],
              speaker_constructed = [''nemo-speakernet'']\<rparr>)"
    by (simp add: load_speaker_engine_def)
  show ?thesis
    using t sp
      construct_once[of "\<lambda>name. True" "\<lparr>tts_engines = Map.empty, tts_constructed = []\<rparr>"
        "''kokoro-multi-lang-v1_0''" 0 24000
        "\<lparr>tts_engines = [''kokoro-multi-lang-v1_0'' \<mapsto> 0],
          tts_constructed = [''kokoro-multi-lang-v1_0'']\<rparr>" "\<lambda>name. True"]
      construct_once[of _ _ "''nemo-speakernet''" _ _ _ _ "\<lambda>name. True"
        "\<lparr>speaker_engines = Map.empty, speaker_constructed = []\<rparr>" 0
        "\<lparr>speaker_engines = [''nemo-speakernet'' \<mapsto> 0],
          speaker_constructed = [''nemo-speakernet'']\<rparr>" "\<lambda>name. True"]
    by blast
qed

end
